theory Spec2Isabelle
  imports Main "HOL-Library.AList"
begin

section \<open>Values\<close>

text \<open>
  The replication core of the outliner (the yjs thoughtspace data provider). Thought ids and
  lexeme keys are strings. A JavaScript object is the association list of its own
  properties in property order (\<open>AList.update\<close> assigns one: an existing key keeps its
  place and a new key goes to the end, \<open>AList.delete\<close> removes one).
\<close>

type_synonym ThoughtId = string

text \<open>\<^verbatim>\<open>enum DocLogAction { Delete, Update }\<close>\<close>

datatype DocLogAction = Delete | Update

text \<open>
  The values stored in documents and passed in entities. \<open>JObj\<close> is a plain object.
  \<open>YMap\<close> is a nested \<^verbatim>\<open>Y.Map\<close> (a value that has a \<^verbatim>\<open>toJSON\<close> method): its keys
  in the order in which they were first set, a deleted key staying in its place with no
  value, where a later \<^verbatim>\<open>set\<close> puts the new value.
\<close>

datatype jsval =
    JNull
  | JBool bool
  | JNum int
  | JStr string
  | JArr "string list"
  | JObj "(string \<times> jsval) list"
  | YMap "(string \<times> jsval option) list"

type_synonym jobj = "(string \<times> jsval) list"

type_synonym ymap = "(string \<times> jsval option) list"

text \<open>JavaScript truthiness, as \<^verbatim>\<open>!x\<close> and \<^verbatim>\<open>x ? a : b\<close> test it.\<close>

fun truthy :: "jsval \<Rightarrow> bool" where
  "truthy JNull = False"
| "truthy (JBool b) = b"
| "truthy (JNum n) = (n \<noteq> 0)"
| "truthy (JStr s) = (s \<noteq> [])"
| "truthy (JArr xs) = True"
| "truthy (JObj m) = True"
| "truthy (YMap m) = True"

text \<open>
  Reading \<^verbatim>\<open>obj[key]\<close> on a plain object finds an own property, or else a property
  that every object inherits from \<^verbatim>\<open>Object.prototype\<close> (a function, or for
  \<^verbatim>\<open>__proto__\<close> the prototype itself: all of them truthy, none of them a document), or
  else nothing.
\<close>

definition Object_prototype :: "string list" where
  "Object_prototype =
     [''constructor'', ''__defineGetter__'', ''__defineSetter__'', ''hasOwnProperty'',
      ''__lookupGetter__'', ''__lookupSetter__'', ''isPrototypeOf'', ''propertyIsEnumerable'',
      ''toString'', ''valueOf'', ''__proto__'', ''toLocaleString'']"

datatype 'a property = Own 'a | Inherited | Absent

definition js_get :: "(string \<times> 'a) list \<Rightarrow> string \<Rightarrow> 'a property" where
  "js_get obj key =
     (case map_of obj key of
        Some v \<Rightarrow> Own v
      | None \<Rightarrow> (if key \<in> set Object_prototype then Inherited else Absent))"

text \<open>\<^verbatim>\<open>!obj[key]\<close> is false exactly when the property read is truthy.\<close>

definition truthy_property :: "jobj \<Rightarrow> string \<Rightarrow> bool" where
  "truthy_property obj key =
     (case js_get obj key of Own v \<Rightarrow> truthy v | Inherited \<Rightarrow> True | Absent \<Rightarrow> False)"

text \<open>\<^verbatim>\<open>nonempty\<close>: filters out null and undefined values.\<close>

definition nonempty :: "'a option list \<Rightarrow> 'a list" where
  "nonempty arr = map the (filter (\<lambda>x. x \<noteq> None) arr)"

section \<open>Mutex\<close>

text \<open>
  \<^verbatim>\<open>mutex()\<close> closes over \<^verbatim>\<open>locked\<close> and \<^verbatim>\<open>interval\<close>. The model adds what
  the closure acts on: the interval timers of the runtime (the id \<^verbatim>\<open>setInterval\<close> returned
  and the handler value it was given) and the callbacks \<^verbatim>\<open>cb()\<close> invoked so far, which
  are the \<^verbatim>\<open>lock()\<close> promises that have been resolved. A caller of \<^verbatim>\<open>lock()\<close> is
  named by a value of type \<open>'w\<close>.
\<close>

record 'w mutex =
  locked :: bool
  interval :: "nat option"
  timers :: "(nat \<times> bool) list"
  next_timer :: nat
  resolved :: "'w list"

definition mutex_new :: "'w mutex" where
  "mutex_new = \<lparr>locked = False, interval = None, timers = [], next_timer = 0, resolved = []\<rparr>"

text \<open>\<^verbatim>\<open>clearInterval(interval)\<close>; clearing an undefined or unknown id does nothing.\<close>

definition clearInterval :: "nat option \<Rightarrow> (nat \<times> bool) list \<Rightarrow> (nat \<times> bool) list" where
  "clearInterval i ts = filter (\<lambda>t. Some (fst t) \<noteq> i) ts"

text \<open>\<^verbatim>\<open>tryLock(cb)\<close>: try once to lock the mutex; invokes the callback if successful.\<close>

definition tryLock :: "'w mutex \<Rightarrow> 'w \<Rightarrow> 'w mutex \<times> bool" where
  "tryLock m cb =
     (if \<not> locked m
      then (m\<lparr>timers := clearInterval (interval m) (timers m),
              locked := True,
              resolved := resolved m @ [cb]\<rparr>, True)
      else (m, False))"

text \<open>
  \<^verbatim>\<open>lock()\<close>: \<^verbatim>\<open>if (!tryLock(resolve)) { interval = setInterval(tryLock(resolve)) }\<close>.
  The argument of \<^verbatim>\<open>setInterval\<close> is the call \<^verbatim>\<open>tryLock(resolve)\<close>, evaluated on the
  spot, so the timer is registered with the boolean that the second call returned.
\<close>

definition lock :: "'w mutex \<Rightarrow> 'w \<Rightarrow> 'w mutex" where
  "lock m w =
     (case tryLock m w of
        (m1, True) \<Rightarrow> m1
      | (m1, False) \<Rightarrow>
          (case tryLock m1 w of
             (m2, handler) \<Rightarrow>
               m2\<lparr>interval := Some (next_timer m2),
                  timers := timers m2 @ [(next_timer m2, handler)],
                  next_timer := Suc (next_timer m2)\<rparr>))"

definition unlock :: "'w mutex \<Rightarrow> 'w mutex" where
  "unlock m = m\<lparr>locked := False\<rparr>"

text \<open>
  An interval timer elapses. Its handler is a boolean, not a function: the browser has
  nothing of the mutex to call (it evaluates the text \<^verbatim>\<open>false\<close>), so no code of the
  mutex runs.
\<close>

definition run_handler :: "bool \<Rightarrow> 'w mutex \<Rightarrow> 'w mutex" where
  "run_handler handler m = m"

definition interval_elapsed :: "'w mutex \<Rightarrow> nat \<Rightarrow> 'w mutex" where
  "interval_elapsed m tid =
     (case map_of (timers m) tid of
        None \<Rightarrow> m
      | Some handler \<Rightarrow> run_handler handler m)"

text \<open>What can happen to a mutex after a caller started waiting.\<close>

datatype 'w mutex_event = Lock 'w | Unlock | Elapsed nat

fun mutex_step :: "'w mutex \<Rightarrow> 'w mutex_event \<Rightarrow> 'w mutex" where
  "mutex_step m (Lock w) = lock m w"
| "mutex_step m Unlock = unlock m"
| "mutex_step m (Elapsed tid) = interval_elapsed m tid"

definition mutex_run :: "'w mutex \<Rightarrow> 'w mutex_event list \<Rightarrow> 'w mutex" where
  "mutex_run m evs = foldl mutex_step m evs"

section \<open>UpdateSet and the push store\<close>

text \<open>
  \<^verbatim>\<open>pushStore.update\<close> belongs to the application; the model keeps the two fields the
  core writes and the list of \<^verbatim>\<open>update\<close> calls received. The progress
  \<^verbatim>\<open>current / total\<close> is kept as the pair.
\<close>

datatype push_update = IsPushing bool | ReplicationProgress nat nat

record push_store =
  isPushing :: bool
  replicationProgress :: "(nat \<times> nat) option"
  updates :: "push_update list"

fun pushStore_update :: "push_update \<Rightarrow> push_store \<Rightarrow> push_store" where
  "pushStore_update (IsPushing b) ps = ps\<lparr>isPushing := b, updates := updates ps @ [IsPushing b]\<rparr>"
| "pushStore_update (ReplicationProgress c t) ps =
     ps\<lparr>replicationProgress := Some (c, t), updates := updates ps @ [ReplicationProgress c t]\<rparr>"

text \<open>\<^verbatim>\<open>const updateQueue: Index<true> = {}\<close>: its own keys, in insertion order.\<close>

record update_set =
  updateQueue :: "string list"
  push :: push_store

text \<open>
  \<^verbatim>\<open>updateQueue[key] = true\<close> makes an own property, except for the key
  \<^verbatim>\<open>__proto__\<close>: that assignment goes to the setter of \<^verbatim>\<open>Object.prototype\<close>, which
  ignores a value that is not an object, and the object gets no property.
\<close>

definition enqueue :: "string \<Rightarrow> update_set \<Rightarrow> update_set" where
  "enqueue key us =
     us\<lparr>updateQueue := (if key = ''__proto__'' \<or> key \<in> set (updateQueue us) then updateQueue us
                          else updateQueue us @ [key]),
        push := pushStore_update (IsPushing True) (push us)\<rparr>"

definition dequeue :: "string \<Rightarrow> update_set \<Rightarrow> update_set" where
  "dequeue key us =
     (let q = removeAll key (updateQueue us) in
      us\<lparr>updateQueue := q,
         push := (if length q = 0 then pushStore_update (IsPushing False) (push us)
                  else push us)\<rparr>)"

datatype us_call = Enqueue string | Dequeue string

fun us_step :: "update_set \<Rightarrow> us_call \<Rightarrow> update_set" where
  "us_step us (Enqueue k) = enqueue k us"
| "us_step us (Dequeue k) = dequeue k us"

text \<open>The set at module load; the flag of the push store is whatever the application set.\<close>

definition update_set_init :: "bool \<Rightarrow> update_set" where
  "update_set_init b =
     \<lparr>updateQueue = [], push = \<lparr>isPushing = b, replicationProgress = None, updates = []\<rparr>\<rparr>"

section \<open>Errors and settled promises\<close>

text \<open>
  \<open>TypeError\<close> is JavaScript's, with the place it is raised. \<open>IllTyped\<close> stands for a
  value that breaks its declared TypeScript type in a way whose JavaScript behaviour is not
  modelled. \<open>DatabaseError\<close> is the error of a failed \<^verbatim>\<open>indexedDB.deleteDatabase\<close>.
\<close>

datatype error = TypeError string | IllTyped string | DatabaseError

datatype 'a settled = Resolved 'a | Rejected error

section \<open>Documents and the entity codec\<close>

text \<open>
  A \<^verbatim>\<open>Y.Doc\<close>: its guid, the root map \<^verbatim>\<open>doc.getMap()\<close> (the core never deletes one of
  its keys), and whether the change observer of the core is attached to the root map.
\<close>

record ydoc =
  guid :: string
  root :: jobj
  observed :: bool

definition new_doc :: "string \<Rightarrow> ydoc" where
  "new_doc documentName = \<lparr>guid = documentName, root = [], observed = False\<rparr>"

text \<open>The entries of a \<^verbatim>\<open>Y.Map\<close> that \<^verbatim>\<open>has\<close>, \<^verbatim>\<open>forEach\<close> and \<^verbatim>\<open>toJSON\<close> see.\<close>

definition live :: "ymap \<Rightarrow> jobj" where
  "live n = map (\<lambda>(k, v). (k, the v)) (filter (\<lambda>(k, v). v \<noteq> None) n)"

text \<open>
  \<^verbatim>\<open>Y.Map.toJSON()\<close> is the library's: it assigns each entry to a new plain object,
  \<^verbatim>\<open>map[key] = value\<close>, and an assignment to \<^verbatim>\<open>__proto__\<close> makes no property: a
  primitive assigned there is dropped, and an object assigned there becomes the prototype
  of the result (\<open>sets_prototype\<close>), which the own properties do not show. The source
  says that a nested map comes back sometimes serialised and sometimes as the
  \<^verbatim>\<open>Y.Map\<close> itself; \<open>deep\<close> says which.
\<close>

definition to_object :: "jobj \<Rightarrow> jobj" where
  "to_object es = filter (\<lambda>(k, v). k \<noteq> ''__proto__'') es"

fun is_object :: "jsval \<Rightarrow> bool" where
  "is_object (JArr xs) = True"
| "is_object (JObj m) = True"
| "is_object (YMap n) = True"
| "is_object v = False"

definition sets_prototype :: "jobj \<Rightarrow> bool" where
  "sets_prototype es = list_ex (\<lambda>(k, v). k = ''__proto__'' \<and> is_object v) es"

fun plain :: "jsval \<Rightarrow> jsval" where
  "plain (YMap n) = JObj (to_object (live n))"
| "plain v = v"

definition toJSON :: "bool \<Rightarrow> jobj \<Rightarrow> jobj" where
  "toJSON deep m = to_object (if deep then map (\<lambda>(k, v). (k, plain v)) m else m)"

text \<open>
  Whether the value read from the serialised root map under a key is an object whose
  prototype \<^verbatim>\<open>toJSON\<close> has replaced: a nested map, serialised, that holds an object
  under \<^verbatim>\<open>__proto__\<close>.
\<close>

definition prototype_replaced :: "bool \<Rightarrow> jobj \<Rightarrow> string \<Rightarrow> bool" where
  "prototype_replaced deep m key =
     (case map_of m key of Some (YMap n) \<Rightarrow> deep \<and> sets_prototype (live n) | _ \<Rightarrow> False)"

text \<open>
  \<^verbatim>\<open>getThought\<close>. Reading \<^verbatim>\<open>.toJSON\<close> of an absent or null \<^verbatim>\<open>childrenMap\<close>
  raises. A nested map has the method and is serialised. A plain object has it only as
  an own property \<^verbatim>\<open>toJSON\<close>, which is data and cannot be called. Any other value is
  kept. What a prototype that \<^verbatim>\<open>toJSON\<close> has replaced would supply to these reads is
  not modelled (\<open>IllTyped\<close>).
\<close>

definition getThought :: "bool \<Rightarrow> ydoc \<Rightarrow> error + jobj option" where
  "getThought deep thoughtDoc =
     (let thoughtMap = root thoughtDoc in
      if length thoughtMap = 0 then Inr None
      else
        (let thoughtRaw = toJSON deep thoughtMap in
         case map_of thoughtRaw ''childrenMap'' of
           None \<Rightarrow>
             (if sets_prototype thoughtMap then Inl (IllTyped ''thoughtRaw'')
              else Inl (TypeError ''thoughtRaw.childrenMap is undefined''))
         | Some JNull \<Rightarrow> Inl (TypeError ''thoughtRaw.childrenMap is null'')
         | Some (YMap n) \<Rightarrow>
             Inr (Some (AList.update ''childrenMap'' (JObj (to_object (live n))) thoughtRaw))
         | Some (JObj m) \<Rightarrow>
             (if prototype_replaced deep thoughtMap ''childrenMap''
              then Inl (IllTyped ''thoughtRaw.childrenMap'')
              else if truthy_property m ''toJSON''
              then Inl (TypeError ''thoughtRaw.childrenMap.toJSON is not a function'')
              else Inr (Some (AList.update ''childrenMap'' (JObj m) thoughtRaw)))
         | Some v \<Rightarrow> Inr (Some (AList.update ''childrenMap'' v thoughtRaw))))"

text \<open>
  \<^verbatim>\<open>getLexeme\<close>: \<^verbatim>\<open>contexts\<close> is stored as a map keyed by context id and returned
  as the array of its keys.
\<close>

definition getLexeme :: "bool \<Rightarrow> ydoc \<Rightarrow> error + jobj option" where
  "getLexeme deep lexemeDoc =
     (let lexemeMap = root lexemeDoc in
      if length lexemeMap = 0 then Inr None
      else
        (let lexemeRaw = toJSON deep lexemeMap in
         case map_of lexemeRaw ''contexts'' of
           None \<Rightarrow>
             (if sets_prototype lexemeMap then Inl (IllTyped ''lexemeRaw'')
              else Inl (TypeError ''lexemeRaw.contexts is undefined''))
         | Some JNull \<Rightarrow> Inl (TypeError ''lexemeRaw.contexts is null'')
         | Some (YMap n) \<Rightarrow>
             Inr (Some (AList.update ''contexts'' (JArr (map fst (to_object (live n)))) lexemeRaw))
         | Some (JObj m) \<Rightarrow>
             (if prototype_replaced deep lexemeMap ''contexts''
              then Inl (IllTyped ''lexemeRaw.contexts'')
              else if truthy_property m ''toJSON''
              then Inl (TypeError ''lexemeRaw.contexts.toJSON is not a function'')
              else Inr (Some (AList.update ''contexts'' (JArr (map fst m)) lexemeRaw)))
         | Some v \<Rightarrow> Inl (IllTyped ''lexemeRaw.contexts'')))"

text \<open>
  The slot of the root map that should hold a nested \<^verbatim>\<open>Y.Map\<close>:
  \<^verbatim>\<open>let m = map.get(key); if (!m) { m = new Y.Map(); map.set(key, m) }\<close>. The result is
  the root map and the nested map; a stored value that is truthy and not a
  \<^verbatim>\<open>Y.Map\<close> has no \<^verbatim>\<open>forEach\<close> to iterate with (an array has one, and none of the
  methods called next).
\<close>

definition nested_slot :: "string \<Rightarrow> jobj \<Rightarrow> error + jobj \<times> ymap" where
  "nested_slot key m =
     (case map_of m key of
        None \<Rightarrow> Inr (AList.update key (YMap []) m, [])
      | Some (YMap n) \<Rightarrow> Inr (m, n)
      | Some (JArr xs) \<Rightarrow> Inl (IllTyped key)
      | Some v \<Rightarrow>
          (if \<not> truthy v then Inr (AList.update key (YMap []) m, [])
           else Inl (TypeError (key @ ''.forEach is not a function''))))"

text \<open>
  \<^verbatim>\<open>map.forEach((v, key) => { if (!obj[key]) map.delete(key) })\<close>: every entry the
  map has is visited, and deleted unless \<^verbatim>\<open>obj[key]\<close> is truthy.
\<close>

definition delete_unless :: "(string \<Rightarrow> bool) \<Rightarrow> ymap \<Rightarrow> ymap" where
  "delete_unless keep n = map (\<lambda>(k, v). (k, if keep k then v else None)) n"

text \<open>
  \<^verbatim>\<open>childrenMap.forEach((childKey, childId) => { if (!value[childId]) childrenMap.delete(childId) })\<close>:
  the callback receives the stored value first and its key second, and \<^verbatim>\<open>value\<close> is the
  \<^verbatim>\<open>childrenMap\<close> of the db thought, read only when there is an entry to visit.
\<close>

definition delete_stale_children :: "jsval \<Rightarrow> ymap \<Rightarrow> error + ymap" where
  "delete_stale_children value childrenMap =
     (if live childrenMap = [] then Inr childrenMap
      else
        (case value of
           JObj obj \<Rightarrow> Inr (delete_unless (truthy_property obj) childrenMap)
         | JNull \<Rightarrow> Inl (TypeError ''value is null'')
         | _ \<Rightarrow> Inl (IllTyped ''value'')))"

text \<open>\<^verbatim>\<open>if (!map.has(key)) map.set(key, v)\<close>, for each entry in turn.\<close>

definition set_if_absent :: "string \<times> jsval \<Rightarrow> ymap \<Rightarrow> ymap" where
  "set_if_absent e n =
     (case map_of n (fst e) of
        Some (Some v) \<Rightarrow> n
      | _ \<Rightarrow> AList.update (fst e) (Some (snd e)) n)"

text \<open>
  \<^verbatim>\<open>Object.entries(thought.childrenMap)\<close>: raises on an absent or null
  \<^verbatim>\<open>childrenMap\<close>.
\<close>

definition entries_of :: "jsval option \<Rightarrow> error + jobj" where
  "entries_of v =
     (case v of
        None \<Rightarrow> Inl (TypeError ''Object.entries of undefined'')
      | Some JNull \<Rightarrow> Inl (TypeError ''Object.entries of null'')
      | Some (JObj m) \<Rightarrow> Inr m
      | Some _ \<Rightarrow> Inl (IllTyped ''Object.entries''))"

text \<open>
  One round of the \<^verbatim>\<open>forEach\<close> over \<^verbatim>\<open>Object.entries(thoughtToDb(thought))\<close> in
  \<^verbatim>\<open>updateThought\<close>. An exception leaves the changes made before it in the map.
\<close>

definition thought_entry :: "jobj \<Rightarrow> string \<times> jsval \<Rightarrow> jobj \<Rightarrow> jobj \<times> error option" where
  "thought_entry thought e thoughtMap =
     (case e of (key, value) \<Rightarrow>
        if key = ''childrenMap'' then
          (case nested_slot ''childrenMap'' thoughtMap of
             Inl err \<Rightarrow> (thoughtMap, Some err)
           | Inr (thoughtMap1, childrenMap) \<Rightarrow>
               (case delete_stale_children value childrenMap of
                  Inl err \<Rightarrow> (thoughtMap1, Some err)
                | Inr childrenMap1 \<Rightarrow>
                    (case entries_of (map_of thought ''childrenMap'') of
                       Inl err \<Rightarrow>
                         (AList.update ''childrenMap'' (YMap childrenMap1) thoughtMap1, Some err)
                     | Inr children \<Rightarrow>
                         (AList.update ''childrenMap''
                            (YMap (fold set_if_absent children childrenMap1)) thoughtMap1, None))))
        else (AList.update key value thoughtMap, None))"

text \<open>The \<^verbatim>\<open>forEach\<close> itself: it stops at the first exception.\<close>

fun run_entries ::
  "(string \<times> jsval \<Rightarrow> jobj \<Rightarrow> jobj \<times> error option) \<Rightarrow> (string \<times> jsval) list \<Rightarrow> jobj
     \<Rightarrow> jobj \<times> error option" where
  "run_entries f [] m = (m, None)"
| "run_entries f (e # es) m =
     (case f e m of
        (m1, Some err) \<Rightarrow> (m1, Some err)
      | (m1, None) \<Rightarrow> run_entries f es m1)"

text \<open>
  The same round in \<^verbatim>\<open>updateLexeme\<close>, over \<^verbatim>\<open>Object.entries(lexeme)\<close>:
  \<^verbatim>\<open>contexts\<close> is an array of context ids, merged into a nested map with values
  \<^verbatim>\<open>true\<close>. \<^verbatim>\<open>contextsObject\<close> has a property \<^verbatim>\<open>true\<close> for each context id
  (\<^verbatim>\<open>keyValueBy\<close> is not among the sources; reading \<^verbatim>\<open>__proto__\<close> from its result
  is truthy however it was built).
\<close>

definition lexeme_entry :: "string \<times> jsval \<Rightarrow> jobj \<Rightarrow> jobj \<times> error option" where
  "lexeme_entry e lexemeMap =
     (case e of (key, value) \<Rightarrow>
        if key = ''contexts'' then
          (case value of
             JArr contexts \<Rightarrow>
               (let contextsObject = map (\<lambda>cxid. (cxid, JBool True)) contexts in
                case nested_slot ''contexts'' lexemeMap of
                  Inl err \<Rightarrow> (lexemeMap, Some err)
                | Inr (lexemeMap1, contextsMap) \<Rightarrow>
                    (AList.update ''contexts''
                       (YMap (fold set_if_absent (map (\<lambda>cxid. (cxid, JBool True)) contexts)
                                (delete_unless (truthy_property contextsObject) contextsMap)))
                       lexemeMap1, None))
           | _ \<Rightarrow> (lexemeMap, Some (IllTyped ''contexts'')))
        else (AList.update key value lexemeMap, None))"

text \<open>
  The two transactions, \<^verbatim>\<open>thoughtDoc.transact(() => { .. }, thoughtDoc.clientID)\<close> with
  \<open>db\<close> the value of \<^verbatim>\<open>thoughtToDb(thought)\<close>, and the one of the lexeme: the document
  after it, and the exception if one was thrown.
\<close>

definition thought_transact :: "jobj \<Rightarrow> jobj \<Rightarrow> ydoc \<Rightarrow> ydoc \<times> error option" where
  "thought_transact db thought thoughtDoc =
     (case run_entries (thought_entry thought) db (root thoughtDoc) of
        (thoughtMap, err) \<Rightarrow> (thoughtDoc\<lparr>root := thoughtMap\<rparr>, err))"

definition lexeme_transact :: "jobj \<Rightarrow> ydoc \<Rightarrow> ydoc \<times> error option" where
  "lexeme_transact lexeme lexemeDoc =
     (case run_entries lexeme_entry lexeme (root lexemeDoc) of
        (lexemeMap, err) \<Rightarrow> (lexemeDoc\<lparr>root := lexemeMap\<rparr>, err))"

section \<open>TaskQueue\<close>

text \<open>
  A task is the closure the doclog observer builds, with the id and the action it
  captured. \<open>LexemeTask\<close> is the task that the specification describes for the lexeme log;
  the code builds none.
\<close>

datatype task = ThoughtTask ThoughtId DocLogAction | LexemeTask string DocLogAction

text \<open>What continues when \<^verbatim>\<open>await mux.lock()\<close> resumes: the rest of \<^verbatim>\<open>add\<close> or of \<^verbatim>\<open>tick\<close>.\<close>

datatype resume = AddResume "task list" | TickResume

record task_queue =
  concurrency :: nat
  mux :: "resume mutex"
  total :: nat
  running :: nat
  complete :: nat
  queue :: "task list"

definition taskQueue :: "nat \<Rightarrow> task_queue" where
  "taskQueue c = \<lparr>concurrency = c, mux = mutex_new, total = 0, running = 0, complete = 0, queue = []\<rparr>"

text \<open>\<^verbatim>\<open>tick\<close> up to its \<^verbatim>\<open>await mux.lock()\<close>.\<close>

definition tick :: "task_queue \<Rightarrow> task_queue" where
  "tick tq = (if running tq \<ge> concurrency tq then tq else tq\<lparr>mux := lock (mux tq) TickResume\<rparr>)"

text \<open>\<^verbatim>\<open>add\<close> up to its \<^verbatim>\<open>await mux.lock()\<close>, and the rest of it once the lock is granted.\<close>

definition add :: "task list \<Rightarrow> task_queue \<Rightarrow> task_queue" where
  "add tasks tq = tq\<lparr>total := total tq + length tasks, mux := lock (mux tq) (AddResume tasks)\<rparr>"

definition add_resumed :: "task list \<Rightarrow> task_queue \<Rightarrow> task_queue" where
  "add_resumed tasks tq = tick (tq\<lparr>queue := queue tq @ tasks, mux := unlock (mux tq)\<rparr>)"

text \<open>
  The rest of \<^verbatim>\<open>tick\<close>: \<^verbatim>\<open>queue.pop()\<close> takes the last task; the task, when there is
  one, is started by the caller.
\<close>

definition tick_resumed :: "task_queue \<Rightarrow> task_queue \<times> task option" where
  "tick_resumed tq =
     (case rev (queue tq) of
        [] \<Rightarrow> (tq\<lparr>mux := unlock (mux tq)\<rparr>, None)
      | t # ts \<Rightarrow> (tq\<lparr>queue := rev ts, mux := unlock (mux tq), running := running tq + 1\<rparr>, Some t))"

text \<open>
  A task's promise resolved: the counters move and \<^verbatim>\<open>onStep(complete, total)\<close> is due,
  which the caller passes to the push store; \<^verbatim>\<open>setTimeout(tick)\<close> follows.
\<close>

definition task_resolved :: "task_queue \<Rightarrow> task_queue \<times> push_update" where
  "task_resolved tq =
     (let tq1 = tq\<lparr>complete := complete tq + 1, running := running tq - 1\<rparr>
      in (tick tq1, ReplicationProgress (complete tq1) (total tq1)))"

section \<open>The engine: registries, doclog, store, databases\<close>

text \<open>Where a transaction came from: a client id, or a provider that applied a remote update.\<close>

datatype origin = OriginClient nat | OriginProvider

text \<open>A change of a \<^verbatim>\<open>Y.Array\<close> as \<^verbatim>\<open>e.changes.delta\<close> lists it.\<close>

datatype 'a delta_item = DInsert "'a list" | DRetain nat | DDelete nat

record 'a yevent =
  transaction_origin :: origin
  delta :: "'a delta_item list"

record doclog_transaction =
  txn_origin :: origin
  thoughtLog_pushed :: "(ThoughtId \<times> DocLogAction) list"
  lexemeLog_pushed :: "(string \<times> DocLogAction) list"

record doclog =
  clientID :: nat
  thoughtLog :: "(ThoughtId \<times> DocLogAction) list"
  lexemeLog :: "(string \<times> DocLogAction) list"
  transactions :: "doclog_transaction list"

text \<open>What the core dispatches to the application store.\<close>

datatype action =
    Alert string
  | UpdateThoughts "(ThoughtId \<times> jobj option) list" "(string \<times> jobj option) list" bool bool bool

text \<open>
  The callbacks the core leaves on promises of its collaborators: on
  \<^verbatim>\<open>whenSynced\<close> of a persistence (in \<^verbatim>\<open>replicateThought\<close>, \<^verbatim>\<open>replicateLexeme\<close>,
  \<^verbatim>\<open>updateThought\<close>, \<^verbatim>\<open>updateLexeme\<close>) and on the request of \<^verbatim>\<open>deleteDB\<close>.
\<close>

datatype continuation =
    ThoughtSynced ThoughtId
  | LexemeSynced string
  | ThoughtSaved string
  | LexemeSaved string
  | ThoughtDeleted ThoughtId
  | LexemeDeleted string

text \<open>
  What the module imports and this development does not have: the workspace id, the id of
  the root thought, the test switch \<^verbatim>\<open>process.env.NODE_ENV === 'test'\<close>, the db projection
  \<^verbatim>\<open>thoughtToDb\<close>, the serialisation depth of the library, the schema version, and the
  thought and lexeme indexes of \<^verbatim>\<open>initialState()\<close>.
\<close>

record config =
  tsid :: string
  HOME_TOKEN :: ThoughtId
  test_env :: bool
  thoughtToDb :: "jobj \<Rightarrow> jobj"
  toJSON_deep :: bool
  SCHEMA_LATEST :: nat
  initial_thoughtIndex :: "(ThoughtId \<times> jobj) list"
  initial_lexemeIndex :: "(string \<times> jobj) list"

text \<open>
  The module's state. A persistence and a websocket provider are kept by the document name
  they were opened with. \<open>rootSynced\<close> is the promise of the root gate: \<open>None\<close> while
  pending, \<open>Some v\<close> once resolved with \<open>v\<close> (\<open>v = None\<close> is \<^verbatim>\<open>undefined\<close>).
  \<open>databases\<close> are the IndexedDB databases that exist, \<open>destroyed\<close> the
  documents destroyed, as they were then, \<open>pending\<close> the callbacks not yet run.
\<close>

record engine =
  cfg :: config
  thoughtDocs :: "(ThoughtId \<times> ydoc) list"
  thoughtPersistence :: "(ThoughtId \<times> string) list"
  thoughtWebsocketProvider :: "(ThoughtId \<times> string) list"
  lexemeDocs :: "(string \<times> ydoc) list"
  lexemePersistence :: "(string \<times> string) list"
  lexemeWebsocketProvider :: "(string \<times> string) list"
  updateSet :: update_set
  dlog :: doclog
  replicationQueue :: task_queue
  dispatched :: "action list"
  databases :: "string list"
  destroyed :: "ydoc list"
  rootSynced :: "jobj option option"
  pending :: "continuation list"

definition engine_init :: "config \<Rightarrow> nat \<Rightarrow> engine" where
  "engine_init c client =
     \<lparr>cfg = c, thoughtDocs = [], thoughtPersistence = [], thoughtWebsocketProvider = [],
      lexemeDocs = [], lexemePersistence = [], lexemeWebsocketProvider = [],
      updateSet = update_set_init False,
      dlog = \<lparr>clientID = client, thoughtLog = [], lexemeLog = [], transactions = []\<rparr>,
      replicationQueue = taskQueue 8,
      dispatched = [], databases = [], destroyed = [], rootSynced = None, pending = []\<rparr>"

text \<open>
  Modelled from the spec: the document name encoders of \<^verbatim>\<open>documentNameEncoder\<close>, which
  is not among the sources: \<^verbatim>\<open><workspace>/thought/<id>\<close> and \<^verbatim>\<open><workspace>/lexeme/<key>\<close>.
\<close>

definition encodeThoughtDocumentName :: "string \<Rightarrow> ThoughtId \<Rightarrow> string" where
  "encodeThoughtDocumentName ws i = ws @ ''/thought/'' @ i"

definition encodeLexemeDocumentName :: "string \<Rightarrow> string \<Rightarrow> string" where
  "encodeLexemeDocumentName ws k = ws @ ''/lexeme/'' @ k"

definition dispatch :: "action \<Rightarrow> engine \<Rightarrow> engine" where
  "dispatch a st = st\<lparr>dispatched := dispatched st @ [a]\<rparr>"

text \<open>
  \<^verbatim>\<open>resolveRootSynced(value)\<close> triggers the emitter, which calls the \<^verbatim>\<open>resolve\<close> of
  the promise; a promise keeps the first value it is resolved with.
\<close>

definition resolveRootSynced :: "jobj option \<Rightarrow> engine \<Rightarrow> engine" where
  "resolveRootSynced v st = (case rootSynced st of None \<Rightarrow> st\<lparr>rootSynced := Some v\<rparr> | Some _ \<Rightarrow> st)"

section \<open>Replicating\<close>

text \<open>
  The registries are plain objects read with \<^verbatim>\<open>registry[id]\<close>. An id that names a
  property of \<^verbatim>\<open>Object.prototype\<close> and has no entry reads as that property: truthy,
  so nothing is installed for it, and not a document or a persistence, so the next
  property read from it is \<^verbatim>\<open>undefined\<close>.

  \<^verbatim>\<open>replicateThought(id)\<close> from the call to its \<^verbatim>\<open>await\<close>: everything here runs
  before the caller gets control back. Opening a persistence opens its database. The
  \<^verbatim>\<open>await\<close> leaves a callback on \<^verbatim>\<open>whenSynced\<close> when there is a persistence for the
  id, and none when there is none. The result is the state and, when evaluating the
  awaited expression throws, the exception, with which the promise is rejected.
\<close>

definition replicateThought :: "ThoughtId \<Rightarrow> engine \<Rightarrow> engine \<times> error option" where
  "replicateThought i st =
     (let documentName = encodeThoughtDocumentName (tsid (cfg st)) i;
          st1 =
            (case js_get (thoughtDocs st) i of
               Absent \<Rightarrow>
                 (let thoughtDoc = new_doc documentName;
                      st2 =
                        (if \<not> test_env (cfg st) then
                           st\<lparr>thoughtPersistence := AList.update i documentName (thoughtPersistence st),
                              databases := List.insert documentName (databases st),
                              thoughtWebsocketProvider :=
                                AList.update i documentName (thoughtWebsocketProvider st)\<rparr>
                         else st)
                  in st2\<lparr>thoughtDocs := AList.update i (thoughtDoc\<lparr>observed := True\<rparr>) (thoughtDocs st2)\<rparr>)
             | _ \<Rightarrow> st)
      in (case js_get (thoughtPersistence st1) i of
            Absent \<Rightarrow> (st1, None)
          | Own p \<Rightarrow> (st1\<lparr>pending := pending st1 @ [ThoughtSynced i]\<rparr>, None)
          | Inherited \<Rightarrow> (st1, Some (TypeError ''thoughtPersistence[id].whenSynced is undefined''))))"

definition replicateLexeme :: "string \<Rightarrow> engine \<Rightarrow> engine \<times> error option" where
  "replicateLexeme key st =
     (let documentName = encodeLexemeDocumentName (tsid (cfg st)) key;
          st1 =
            (case js_get (lexemeDocs st) key of
               Absent \<Rightarrow>
                 (let lexemeDoc = new_doc documentName;
                      st2 =
                        (if \<not> test_env (cfg st) then
                           st\<lparr>lexemePersistence := AList.update key documentName (lexemePersistence st),
                              databases := List.insert documentName (databases st),
                              lexemeWebsocketProvider :=
                                AList.update key documentName (lexemeWebsocketProvider st)\<rparr>
                         else st)
                  in st2\<lparr>lexemeDocs := AList.update key (lexemeDoc\<lparr>observed := True\<rparr>) (lexemeDocs st2)\<rparr>)
             | _ \<Rightarrow> st)
      in (case js_get (lexemePersistence st1) key of
            Absent \<Rightarrow> (st1, None)
          | Own p \<Rightarrow> (st1\<lparr>pending := pending st1 @ [LexemeSynced key]\<rparr>, None)
          | Inherited \<Rightarrow> (st1, Some (TypeError ''lexemePersistence[key].whenSynced is undefined''))))"

section \<open>Updating one entity\<close>

text \<open>
  \<^verbatim>\<open>thought.id\<close>, a string by the type \<^verbatim>\<open>Thought\<close>; an absent property reads as
  \<^verbatim>\<open>undefined\<close>, which as an object key is the string of that name.
\<close>

definition id_of :: "jobj \<Rightarrow> string" where
  "id_of thought = (case map_of thought ''id'' of Some (JStr s) \<Rightarrow> s | _ \<Rightarrow> ''undefined'')"

text \<open>
  \<^verbatim>\<open>updateThought\<close> has no \<^verbatim>\<open>await\<close>: it runs to its end within the call, and its
  promise rejects when the body throws. The call of \<^verbatim>\<open>replicateThought\<close> is not
  awaited, so a rejection of its promise goes unseen. With no document,
  \<^verbatim>\<open>thoughtDoc.once\<close> throws inside the promise executor (which only rejects
  \<^verbatim>\<open>done\<close>); the body throws where it reads \<^verbatim>\<open>whenSynced\<close> of an inherited
  property, and where it calls \<^verbatim>\<open>thoughtDoc.transact\<close> on what is not a document.
\<close>

definition updateThought :: "ThoughtId \<Rightarrow> jobj \<Rightarrow> engine \<Rightarrow> engine \<times> unit settled" where
  "updateThought i thought st =
     (let st1 = (case js_get (thoughtDocs st) i of Absent \<Rightarrow> fst (replicateThought i st) | _ \<Rightarrow> st);
          thoughtDoc = js_get (thoughtDocs st1) i;
          st2 = st1\<lparr>updateSet := enqueue (id_of thought) (updateSet st1)\<rparr>
      in (case js_get (thoughtPersistence st2) (id_of thought) of
            Inherited \<Rightarrow>
              (st2, Rejected (TypeError ''thoughtPersistence[thought.id].whenSynced is undefined''))
          | p \<Rightarrow>
              (let st3 = (case p of
                            Own x \<Rightarrow> st2\<lparr>pending := pending st2 @ [ThoughtSaved (id_of thought)]\<rparr>
                          | _ \<Rightarrow> st2)
               in (case thoughtDoc of
                     Absent \<Rightarrow> (st3, Rejected (TypeError ''thoughtDoc is undefined''))
                   | Inherited \<Rightarrow> (st3, Rejected (TypeError ''thoughtDoc.transact is not a function''))
                   | Own d \<Rightarrow>
                       (case thought_transact (thoughtToDb (cfg st3) thought) thought d of
                          (d1, err) \<Rightarrow>
                            (st3\<lparr>thoughtDocs := AList.update i d1 (thoughtDocs st3)\<rparr>,
                             (case err of None \<Rightarrow> Resolved () | Some e \<Rightarrow> Rejected e)))))))"

text \<open>
  \<^verbatim>\<open>updateLexeme\<close> is not declared \<^verbatim>\<open>async\<close>; \<^verbatim>\<open>updateThoughts\<close> calls it inside
  an \<^verbatim>\<open>async\<close> arrow function, whose promise rejects when the call throws.
\<close>

definition updateLexeme :: "string \<Rightarrow> jobj \<Rightarrow> engine \<Rightarrow> engine \<times> unit settled" where
  "updateLexeme key lexeme st =
     (let st1 = (case js_get (lexemeDocs st) key of Absent \<Rightarrow> fst (replicateLexeme key st) | _ \<Rightarrow> st);
          lexemeDoc = js_get (lexemeDocs st1) key;
          st2 = st1\<lparr>updateSet := enqueue key (updateSet st1)\<rparr>
      in (case js_get (lexemePersistence st2) key of
            Inherited \<Rightarrow>
              (st2, Rejected (TypeError ''lexemePersistence[key].whenSynced is undefined''))
          | p \<Rightarrow>
              (let st3 = (case p of
                            Own x \<Rightarrow> st2\<lparr>pending := pending st2 @ [LexemeSaved key]\<rparr>
                          | _ \<Rightarrow> st2)
               in (case lexemeDoc of
                     Absent \<Rightarrow> (st3, Rejected (TypeError ''lexemeDoc is undefined''))
                   | Inherited \<Rightarrow> (st3, Rejected (TypeError ''lexemeDoc.transact is not a function''))
                   | Own d \<Rightarrow>
                       (case lexeme_transact lexeme d of
                          (d1, err) \<Rightarrow>
                            (st3\<lparr>lexemeDocs := AList.update key d1 (lexemeDocs st3)\<rparr>,
                             (case err of None \<Rightarrow> Resolved () | Some e \<Rightarrow> Rejected e)))))))"

section \<open>Deleting\<close>

text \<open>
  \<^verbatim>\<open>deleteThought(id)\<close> up to the request \<^verbatim>\<open>deleteDB(name)\<close>: the observer is removed
  from the registered document, the document destroyed, the registry entries deleted.
  \<^verbatim>\<open>thoughtDocs[id]?.getMap()\<close> skips an absent entry and throws on an inherited
  property, which has no \<^verbatim>\<open>getMap\<close>: the function is not \<^verbatim>\<open>async\<close>, so the exception
  leaves it at once, after \<^verbatim>\<open>enqueue\<close>, and no promise is returned. The result is the
  state and that exception, if any.
\<close>

definition deleteThought :: "ThoughtId \<Rightarrow> engine \<Rightarrow> engine \<times> error option" where
  "deleteThought i st =
     (let st1 = st\<lparr>updateSet := enqueue i (updateSet st)\<rparr> in
      case js_get (thoughtDocs st1) i of
        Inherited \<Rightarrow> (st1, Some (TypeError ''thoughtDocs[id].getMap is not a function''))
      | p \<Rightarrow>
          (let st2 = (case p of
                        Own d \<Rightarrow> st1\<lparr>destroyed := destroyed st1 @ [d\<lparr>observed := False\<rparr>]\<rparr>
                      | _ \<Rightarrow> st1)
           in (st2\<lparr>thoughtDocs := AList.delete i (thoughtDocs st2),
                   thoughtPersistence := AList.delete i (thoughtPersistence st2),
                   thoughtWebsocketProvider := AList.delete i (thoughtWebsocketProvider st2),
                   pending := pending st2 @ [ThoughtDeleted i]\<rparr>, None)))"

definition deleteLexeme :: "string \<Rightarrow> engine \<Rightarrow> engine \<times> error option" where
  "deleteLexeme key st =
     (let st1 = st\<lparr>updateSet := enqueue key (updateSet st)\<rparr> in
      case js_get (lexemeDocs st1) key of
        Inherited \<Rightarrow> (st1, Some (TypeError ''lexemeDocs[key].getMap is not a function''))
      | p \<Rightarrow>
          (let st2 = (case p of
                        Own d \<Rightarrow> st1\<lparr>destroyed := destroyed st1 @ [d\<lparr>observed := False\<rparr>]\<rparr>
                      | _ \<Rightarrow> st1)
           in (st2\<lparr>lexemeDocs := AList.delete key (lexemeDocs st2),
                   lexemePersistence := AList.delete key (lexemePersistence st2),
                   lexemeWebsocketProvider := AList.delete key (lexemeWebsocketProvider st2),
                   pending := pending st2 @ [LexemeDeleted key]\<rparr>, None)))"

text \<open>
  The promise of \<^verbatim>\<open>deleteDB(name)\<close> once the request has succeeded (\<open>ok\<close>) or failed,
  and the two promise combinators applied to it: a handler that throws rejects the
  promise that the combinator returns.
\<close>

definition deleteDB :: "string \<Rightarrow> bool \<Rightarrow> engine \<Rightarrow> engine \<times> unit settled" where
  "deleteDB name ok st =
     (if ok then (st\<lparr>databases := removeAll name (databases st)\<rparr>, Resolved ())
      else (st, Rejected DatabaseError))"

definition promise_catch ::
  "(error \<Rightarrow> engine \<Rightarrow> engine \<times> error option) \<Rightarrow> engine \<times> unit settled \<Rightarrow> engine \<times> unit settled" where
  "promise_catch handler p =
     (case p of
        (st, Rejected e) \<Rightarrow>
          (case handler e st of
             (st1, None) \<Rightarrow> (st1, Resolved ())
           | (st1, Some e1) \<Rightarrow> (st1, Rejected e1))
      | (st, Resolved v) \<Rightarrow> (st, Resolved v))"

definition promise_finally ::
  "(engine \<Rightarrow> engine \<times> error option) \<Rightarrow> engine \<times> unit settled \<Rightarrow> engine \<times> unit settled" where
  "promise_finally handler p =
     (case p of
        (st, r) \<Rightarrow>
          (case handler st of
             (st1, None) \<Rightarrow> (st1, r)
           | (st1, Some e1) \<Rightarrow> (st1, Rejected e1)))"

text \<open>
  The handlers of \<^verbatim>\<open>deleteThought\<close> and \<^verbatim>\<open>deleteLexeme\<close>:
  \<^verbatim>\<open>console.error(e); store.dispatch(alert('Error deleting thought'))\<close> and
  \<^verbatim>\<open>dequeue(id)\<close>. The store and the push store belong to the application and are
  taken not to throw.
\<close>

definition alert_delete_error :: "error \<Rightarrow> engine \<Rightarrow> engine \<times> error option" where
  "alert_delete_error e st = (dispatch (Alert ''Error deleting thought'') st, None)"

definition dequeue_handler :: "string \<Rightarrow> engine \<Rightarrow> engine \<times> error option" where
  "dequeue_handler key st = (st\<lparr>updateSet := dequeue key (updateSet st)\<rparr>, None)"

text \<open>The promise that \<^verbatim>\<open>deleteThought\<close> returned, settled.\<close>

definition deleteThought_settled :: "ThoughtId \<Rightarrow> bool \<Rightarrow> engine \<Rightarrow> engine \<times> unit settled" where
  "deleteThought_settled i ok st =
     promise_finally (dequeue_handler i)
       (promise_catch alert_delete_error
          (deleteDB (encodeThoughtDocumentName (tsid (cfg st)) i) ok st))"

definition deleteLexeme_settled :: "string \<Rightarrow> bool \<Rightarrow> engine \<Rightarrow> engine \<times> unit settled" where
  "deleteLexeme_settled key ok st =
     promise_finally (dequeue_handler key)
       (promise_catch alert_delete_error
          (deleteDB (encodeLexemeDocumentName (tsid (cfg st)) key) ok st))"

section \<open>Callbacks\<close>

text \<open>
  A callback runs when the promise it waits on has settled: \<open>ok\<close> when it resolved. The one
  of \<^verbatim>\<open>replicateThought\<close> is
  \<^verbatim>\<open>.then(() => { if (id === HOME_TOKEN) resolveRootSynced(thoughtDocs[HOME_TOKEN]?.getMap().toJSON()) }).catch(alert)\<close>;
  its \<^verbatim>\<open>catch\<close> also takes what the \<^verbatim>\<open>then\<close> throws, as it does on an
  inherited property.
\<close>

fun run_continuation :: "continuation \<Rightarrow> bool \<Rightarrow> engine \<Rightarrow> engine" where
  "run_continuation (ThoughtSynced i) ok st =
     (if ok then
        (if i = HOME_TOKEN (cfg st) then
           (case js_get (thoughtDocs st) (HOME_TOKEN (cfg st)) of
              Absent \<Rightarrow> resolveRootSynced None st
            | Own d \<Rightarrow> resolveRootSynced (Some (toJSON (toJSON_deep (cfg st)) (root d))) st
            | Inherited \<Rightarrow> dispatch (Alert ''Error loading thought'') st)
         else st)
      else dispatch (Alert ''Error loading thought'') st)"
| "run_continuation (LexemeSynced key) ok st =
     (if ok then st else dispatch (Alert ''Error loading thought'') st)"
| "run_continuation (ThoughtSaved key) ok st =
     (let st1 = (if ok then st else dispatch (Alert ''Error saving thought'') st)
      in st1\<lparr>updateSet := dequeue key (updateSet st1)\<rparr>)"
| "run_continuation (LexemeSaved key) ok st =
     (let st1 = (if ok then st else dispatch (Alert ''Error saving thought'') st)
      in st1\<lparr>updateSet := dequeue key (updateSet st1)\<rparr>)"
| "run_continuation (ThoughtDeleted i) ok st = fst (deleteThought_settled i ok st)"
| "run_continuation (LexemeDeleted key) ok st = fst (deleteLexeme_settled key ok st)"

definition settle :: "continuation \<Rightarrow> bool \<Rightarrow> engine \<Rightarrow> engine" where
  "settle k ok st =
     (if k \<in> set (pending st) then run_continuation k ok (st\<lparr>pending := remove1 k (pending st)\<rparr>)
      else st)"

section \<open>The doclog observers\<close>

text \<open>\<^verbatim>\<open>e.changes.delta.flatMap(item => item.insert || [])\<close>\<close>

definition inserted :: "'a delta_item list \<Rightarrow> 'a list" where
  "inserted d = concat (map (\<lambda>item. case item of DInsert xs \<Rightarrow> xs | _ \<Rightarrow> []) d)"

text \<open>
  The \<^verbatim>\<open>deltas.map\<close> of the thought log observer, with the set \<^verbatim>\<open>idsTraversed\<close>
  that its callback fills; the set is made anew in every call of the observer.
\<close>

fun thought_tasks :: "ThoughtId set \<Rightarrow> (ThoughtId \<times> DocLogAction) list \<Rightarrow> task option list" where
  "thought_tasks idsTraversed [] = []"
| "thought_tasks idsTraversed ((i, action) # deltas) =
     (if i \<in> idsTraversed then None # thought_tasks idsTraversed deltas
      else Some (ThoughtTask i action) # thought_tasks (insert i idsTraversed) deltas)"

text \<open>The argument of \<^verbatim>\<open>replicationQueue.add\<close> in the observer: \<^verbatim>\<open>nonempty(tasks)\<close>.\<close>

definition thoughtLog_tasks :: "(ThoughtId \<times> DocLogAction) yevent \<Rightarrow> task list" where
  "thoughtLog_tasks e = nonempty (thought_tasks {} (rev (inserted (delta e))))"

definition thoughtLog_observe :: "(ThoughtId \<times> DocLogAction) yevent \<Rightarrow> engine \<Rightarrow> engine" where
  "thoughtLog_observe e st =
     (if transaction_origin e = OriginClient (clientID (dlog st)) then st
      else st\<lparr>replicationQueue := add (thoughtLog_tasks e) (replicationQueue st)\<rparr>)"

text \<open>
  What a task does when the queue calls it, up to its first \<^verbatim>\<open>await\<close>, and the
  exception with which its promise is rejected, if its body throws or the promise it
  awaits is rejected at once.
\<close>

fun run_task :: "task \<Rightarrow> engine \<Rightarrow> engine \<times> error option" where
  "run_task (ThoughtTask i action) st =
     (if action = Update then replicateThought i st
      else deleteThought i (dispatch (UpdateThoughts [(i, None)] [] False False True) st))"
| "run_task (LexemeTask key action) st =
     (if action = Update then replicateLexeme key st
      else deleteLexeme key (dispatch (UpdateThoughts [] [(key, None)] False False True) st))"

text \<open>
  The callback of \<^verbatim>\<open>keysChanged.forEach\<close> in the lexeme log observer, after its test
  of \<^verbatim>\<open>keysTraversed\<close>. It acts at once. \<^verbatim>\<open>replicateLexeme\<close> is not awaited, so a
  rejection of its promise goes unseen; an exception of \<^verbatim>\<open>deleteLexeme\<close> leaves the
  callback.
\<close>

definition lexeme_callback :: "string \<times> DocLogAction \<Rightarrow> engine \<Rightarrow> engine \<times> error option" where
  "lexeme_callback e st =
     (case e of (key, action) \<Rightarrow>
        if action = Update then (fst (replicateLexeme key st), None)
        else deleteLexeme key (dispatch (UpdateThoughts [] [(key, None)] False False True) st))"

text \<open>
  The \<^verbatim>\<open>forEach\<close> with the set \<^verbatim>\<open>keysTraversed\<close>; an exception of the callback
  ends it and leaves the observer.
\<close>

fun lexeme_forEach ::
  "string set \<Rightarrow> (string \<times> DocLogAction) list \<Rightarrow> engine \<Rightarrow> engine \<times> error option" where
  "lexeme_forEach keysTraversed [] st = (st, None)"
| "lexeme_forEach keysTraversed ((key, action) # keysChanged) st =
     (if key \<in> keysTraversed then lexeme_forEach keysTraversed keysChanged st
      else
        (case lexeme_callback (key, action) st of
           (st1, Some err) \<Rightarrow> (st1, Some err)
         | (st1, None) \<Rightarrow> lexeme_forEach (insert key keysTraversed) keysChanged st1))"

definition lexemeLog_observe ::
  "(string \<times> DocLogAction) yevent \<Rightarrow> engine \<Rightarrow> engine \<times> error option" where
  "lexemeLog_observe e st =
     (if transaction_origin e = OriginClient (clientID (dlog st)) then (st, None)
      else lexeme_forEach {} (rev (inserted (delta e))) st)"

text \<open>
  The observer algorithm in the words of the specification, for the lexeme log: walk the
  reversed insertions with a seen set, emit a task per surviving entry, submit the tasks
  to the replication queue.
\<close>

fun surviving_spec :: "string set \<Rightarrow> (string \<times> DocLogAction) list \<Rightarrow> (string \<times> DocLogAction) list" where
  "surviving_spec seen [] = []"
| "surviving_spec seen ((key, action) # es) =
     (if key \<in> seen then surviving_spec seen es
      else (key, action) # surviving_spec (insert key seen) es)"



text \<open>
  Doing at once, one after the other, what the callback does for each of a list of
  entries, until one throws.
\<close>

fun act_at_once :: "(string \<times> DocLogAction) list \<Rightarrow> engine \<Rightarrow> engine \<times> error option" where
  "act_at_once [] st = (st, None)"
| "act_at_once (e # es) st =
     (case lexeme_callback e st of
        (st1, Some err) \<Rightarrow> (st1, Some err)
      | (st1, None) \<Rightarrow> act_at_once es st1)"

text \<open>
  The replication queue at work: the code after an \<^verbatim>\<open>await mux.lock()\<close> that was
  granted runs, and a task that has resolved reports progress to the push store (a task
  resolves only after it was started, so none does while none is running).
\<close>

definition resume_next :: "engine \<Rightarrow> engine" where
  "resume_next st =
     (let rq = replicationQueue st in
      case resolved (mux rq) of
        [] \<Rightarrow> st
      | r # rs \<Rightarrow>
          (let rq1 = rq\<lparr>mux := (mux rq)\<lparr>resolved := rs\<rparr>\<rparr> in
           case r of
             AddResume tasks \<Rightarrow> st\<lparr>replicationQueue := add_resumed tasks rq1\<rparr>
           | TickResume \<Rightarrow>
               (case tick_resumed rq1 of
                  (rq2, None) \<Rightarrow> st\<lparr>replicationQueue := rq2\<rparr>
                | (rq2, Some t) \<Rightarrow> fst (run_task t (st\<lparr>replicationQueue := rq2\<rparr>)))))"

definition task_done :: "engine \<Rightarrow> engine" where
  "task_done st =
     (if running (replicationQueue st) = 0 then st
      else
        (case task_resolved (replicationQueue st) of
           (rq, progress) \<Rightarrow>
             st\<lparr>replicationQueue := rq,
                updateSet := (updateSet st)\<lparr>push := pushStore_update progress (push (updateSet st))\<rparr>\<rparr>))"

section \<open>updateThoughts and clear\<close>

text \<open>
  \<^verbatim>\<open>groupObjectBy\<close> is not among the sources; by its use here it splits the entries
  into those with a value and those with \<^verbatim>\<open>null\<close>, each in the order of the input.
\<close>

definition updates_of :: "('k \<times> 'v option) list \<Rightarrow> ('k \<times> 'v) list" where
  "updates_of xs = map (\<lambda>(k, v). (k, the v)) (filter (\<lambda>(k, v). v \<noteq> None) xs)"

definition deletes_of :: "('k \<times> 'v option) list \<Rightarrow> 'k list" where
  "deletes_of xs = map fst (filter (\<lambda>(k, v). v = None) xs)"

text \<open>\<^verbatim>\<open>Object.entries(updates).map(([id, x]) => update(id, x))\<close>: the calls in order, and their promises.\<close>

fun run_updates ::
  "('k \<Rightarrow> jobj \<Rightarrow> engine \<Rightarrow> engine \<times> unit settled) \<Rightarrow> ('k \<times> jobj) list \<Rightarrow> engine
     \<Rightarrow> engine \<times> unit settled list" where
  "run_updates f [] st = (st, [])"
| "run_updates f ((k, x) # xs) st =
     (case f k x st of
        (st1, r) \<Rightarrow> (case run_updates f xs st1 of (st2, rs) \<Rightarrow> (st2, r # rs)))"

text \<open>\<^verbatim>\<open>ids.map(deleteThought)\<close>: the calls in order; an exception ends the \<^verbatim>\<open>map\<close>.\<close>

fun run_deletes ::
  "('k \<Rightarrow> engine \<Rightarrow> engine \<times> error option) \<Rightarrow> 'k list \<Rightarrow> engine \<Rightarrow> engine \<times> error option" where
  "run_deletes f [] st = (st, None)"
| "run_deletes f (k # ks) st =
     (case f k st of
        (st1, Some err) \<Rightarrow> (st1, Some err)
      | (st1, None) \<Rightarrow> run_deletes f ks st1)"

text \<open>
  \<^verbatim>\<open>keys.map(key => [key, updates[key] ? DocLogAction.Update : DocLogAction.Delete])\<close>
  over the own keys of the input; an entity is an object, which is truthy, and
  \<^verbatim>\<open>null\<close> is not.
\<close>

definition logs_of :: "(string \<times> jobj option) list \<Rightarrow> (string \<times> DocLogAction) list" where
  "logs_of indexUpdates =
     map (\<lambda>key. (key, (case map_of indexUpdates key of Some (Some x) \<Rightarrow> Update | _ \<Rightarrow> Delete)))
       (map fst indexUpdates)"

text \<open>\<^verbatim>\<open>xs[0]\<close> and \<^verbatim>\<open>log.slice(-1)[0]\<close>: \<^verbatim>\<open>undefined\<close> on an empty array.\<close>

definition first_entry :: "'a list \<Rightarrow> 'a option" where
  "first_entry xs = (case xs of [] \<Rightarrow> None | x # _ \<Rightarrow> Some x)"

definition last_entry :: "'a list \<Rightarrow> 'a option" where
  "last_entry xs = (case rev xs of [] \<Rightarrow> None | x # _ \<Rightarrow> Some x)"

text \<open>
  \<^verbatim>\<open>if (_.isEqual(logs[0], log.slice(-1)[0])) logs.shift()\<close>; \<^verbatim>\<open>shift\<close> leaves an
  empty array empty.
\<close>

definition trim_first :: "(string \<times> DocLogAction) list \<Rightarrow> (string \<times> DocLogAction) list
    \<Rightarrow> (string \<times> DocLogAction) list" where
  "trim_first logs log = (if first_entry logs = last_entry log then tl logs else logs)"

text \<open>\<^verbatim>\<open>doclog.transact(() => { thoughtLog.push(..); lexemeLog.push(..) }, doclog.clientID)\<close>\<close>

definition doclog_transact_push ::
  "(ThoughtId \<times> DocLogAction) list \<Rightarrow> (string \<times> DocLogAction) list \<Rightarrow> doclog \<Rightarrow> doclog" where
  "doclog_transact_push thoughtLogs lexemeLogs dl =
     dl\<lparr>thoughtLog := thoughtLog dl @ thoughtLogs,
        lexemeLog := lexemeLog dl @ lexemeLogs,
        transactions := transactions dl @
          [\<lparr>txn_origin = OriginClient (clientID dl),
            thoughtLog_pushed = thoughtLogs, lexemeLog_pushed = lexemeLogs\<rparr>]\<rparr>"

text \<open>
  \<^verbatim>\<open>updateThoughts\<close> has no \<^verbatim>\<open>await\<close> either. The result is the state when it
  returns, the promises of the entity updates, and the exception that a delete call threw,
  if one did (it ends the function and rejects its promise); the promises of the deletes
  settle later (\<open>settle\<close>).
\<close>

definition updateThoughts ::
  "(ThoughtId \<times> jobj option) list \<Rightarrow> (string \<times> jobj option) list \<Rightarrow> nat \<Rightarrow> engine
     \<Rightarrow> engine \<times> unit settled list \<times> error option" where
  "updateThoughts thoughtIndexUpdates lexemeIndexUpdates schemaVersion st =
     (case run_updates updateThought (updates_of thoughtIndexUpdates) st of
        (st1, thoughtUpdatesPromise) \<Rightarrow>
          (case run_updates updateLexeme (updates_of lexemeIndexUpdates) st1 of
             (st2, lexemeUpdatesPromise) \<Rightarrow>
               (let thoughtLogs = trim_first (logs_of thoughtIndexUpdates) (thoughtLog (dlog st2));
                    lexemeLogs = trim_first (logs_of lexemeIndexUpdates) (lexemeLog (dlog st2));
                    st3 = st2\<lparr>dlog := doclog_transact_push thoughtLogs lexemeLogs (dlog st2)\<rparr>
                in (case run_deletes deleteThought (deletes_of thoughtIndexUpdates) st3 of
                      (st4, Some err) \<Rightarrow> (st4, thoughtUpdatesPromise @ lexemeUpdatesPromise, Some err)
                    | (st4, None) \<Rightarrow>
                        (case run_deletes deleteLexeme (deletes_of lexemeIndexUpdates) st4 of
                           (st5, thrown) \<Rightarrow>
                             (st5, thoughtUpdatesPromise @ lexemeUpdatesPromise, thrown))))))"





section \<open>Runs of the engine\<close>

datatype event =
    CallReplicateThought ThoughtId
  | CallReplicateLexeme string
  | CallUpdateThoughts "(ThoughtId \<times> jobj option) list" "(string \<times> jobj option) list" nat
  | Settle continuation bool
  | ThoughtLogChanged "(ThoughtId \<times> DocLogAction) yevent"
  | LexemeLogChanged "(string \<times> DocLogAction) yevent"
  | ResumeNext
  | TaskDone

fun engine_step :: "engine \<Rightarrow> event \<Rightarrow> engine" where
  "engine_step st (CallReplicateThought i) = fst (replicateThought i st)"
| "engine_step st (CallReplicateLexeme key) = fst (replicateLexeme key st)"
| "engine_step st (CallUpdateThoughts tu lu v) = fst (updateThoughts tu lu v st)"
| "engine_step st (Settle k ok) = settle k ok st"
| "engine_step st (ThoughtLogChanged e) = thoughtLog_observe e st"
| "engine_step st (LexemeLogChanged e) = fst (lexemeLog_observe e st)"
| "engine_step st ResumeNext = resume_next st"
| "engine_step st TaskDone = task_done st"

definition engine_run :: "engine \<Rightarrow> event list \<Rightarrow> engine" where
  "engine_run st evs = foldl engine_step st evs"

section \<open>A configuration and states for the examples\<close>

definition demo_config :: config where
  "demo_config = \<lparr>tsid = ''ws'', HOME_TOKEN = ''__ROOT__'', test_env = False,
     thoughtToDb = (\<lambda>t. t), toJSON_deep = True, SCHEMA_LATEST = 1,
     initial_thoughtIndex = [(''__ROOT__'', [(''id'', JStr ''__ROOT__''), (''value'', JStr ''__ROOT__''), (''childrenMap'', JObj [])])],
     initial_lexemeIndex = []\<rparr>"

definition demo_engine :: engine where
  "demo_engine = (engine_init demo_config 7)\<lparr>dlog :=
      \<lparr>clientID = 7, thoughtLog = [(''x'', Update)], lexemeLog = [], transactions = []\<rparr>\<rparr>"

definition demo_registered :: engine where
  "demo_registered = fst (replicateThought ''x'' (engine_init demo_config 7))"

section \<open>Mutex: a waiter is never woken\<close>

lemma lock_while_locked:
  "locked m \<Longrightarrow> lock m w = m\<lparr>interval := Some (next_timer m),
      timers := timers m @ [(next_timer m, False)], next_timer := Suc (next_timer m)\<rparr>"
  by (simp add: lock_def tryLock_def)

lemma lock_while_free:
  "\<not> locked m \<Longrightarrow> lock m w = m\<lparr>timers := clearInterval (interval m) (timers m),
      locked := True, resolved := resolved m @ [w]\<rparr>"
  by (simp add: lock_def tryLock_def)

lemma resolved_mutex_step:
  "set (resolved (mutex_step m ev)) \<subseteq> set (resolved m) \<union> (case ev of Lock w \<Rightarrow> {w} | _ \<Rightarrow> {})"
  by (cases ev; cases "locked m")
     (auto simp: lock_while_locked lock_while_free unlock_def interval_elapsed_def
        run_handler_def split: option.splits)

lemma resolved_foldl_mutex_step:
  "w \<notin> set (resolved m) \<Longrightarrow> Lock w \<notin> set evs \<Longrightarrow> w \<notin> set (resolved (foldl mutex_step m evs))"
proof (induction evs arbitrary: m)
  case Nil
  then show ?case by simp
next
  case (Cons ev evs)
  have "w \<notin> set (resolved (mutex_step m ev))"
    using resolved_mutex_step [of m ev] Cons.prems by (cases ev) auto
  with Cons show ?case by simp
qed

text \<open>
  C5. The claim: a \<^verbatim>\<open>lock()\<close> issued while the mutex is held resolves after
  \<^verbatim>\<open>unlock()\<close>. The code: first caller 1 takes the free mutex, caller 2 calls
  \<^verbatim>\<open>lock()\<close> while it is held, and whatever follows (the holder unlocks, timers elapse,
  other callers lock and unlock), caller 2 is never resolved, although right after the
  holder's \<^verbatim>\<open>unlock()\<close> the mutex is free.
\<close>

theorem mutex_waiter_never_resolved:
  "\<forall>evs. Lock 2 \<notin> set evs \<longrightarrow>
     2 \<notin> set (resolved (mutex_run (lock (lock mutex_new (1::nat)) 2) evs))"
proof (intro allI impI)
  fix evs :: "nat mutex_event list"
  assume a: "Lock 2 \<notin> set evs"
  have "(2::nat) \<notin> set (resolved (lock (lock mutex_new (1::nat)) 2))"
    by (simp add: lock_def tryLock_def mutex_new_def)
  from resolved_foldl_mutex_step [OF this a] show
    "2 \<notin> set (resolved (mutex_run (lock (lock mutex_new (1::nat)) 2) evs))"
    by (simp add: mutex_run_def)
qed

theorem mutex_waiter_never_resolved_witness:
  "resolved (mutex_run (lock (lock mutex_new (1::nat)) 2) [Unlock, Elapsed 0, Elapsed 0]) = [1]
   \<and> \<not> locked (mutex_run (lock (lock mutex_new (1::nat)) 2) [Unlock, Elapsed 0, Elapsed 0])
   \<and> 2 \<notin> set (resolved (mutex_run (lock (lock mutex_new (1::nat)) 2) [Unlock, Elapsed 0, Elapsed 0]))"
proof -
  have "(2::nat) \<notin> set (resolved (mutex_run (lock (lock mutex_new (1::nat)) 2)
          [Unlock, Elapsed 0, Elapsed 0]))"
    using mutex_waiter_never_resolved by simp
  moreover have "resolved (mutex_run (lock (lock mutex_new (1::nat)) 2)
          [Unlock, Elapsed 0, Elapsed 0]) = [1]"
    by (simp add: mutex_run_def lock_def tryLock_def mutex_new_def unlock_def
          interval_elapsed_def run_handler_def clearInterval_def)
  moreover have "\<not> locked (mutex_run (lock (lock mutex_new (1::nat)) 2)
          [Unlock, Elapsed 0, Elapsed 0])"
    by (simp add: mutex_run_def lock_def tryLock_def mutex_new_def unlock_def
          interval_elapsed_def run_handler_def clearInterval_def)
  ultimately show ?thesis by simp
qed

section \<open>UpdateSet: the flag follows the set, and is pushed on every enqueue\<close>

lemma us_step_flag:
  "updateQueue us \<noteq> [] \<longrightarrow> isPushing (push us) \<Longrightarrow> c \<noteq> Enqueue ''__proto__'' \<Longrightarrow>
   isPushing (push (us_step us c)) = (updateQueue (us_step us c) \<noteq> [])"
  by (cases c) (auto simp: enqueue_def dequeue_def Let_def)

lemma us_step_pre:
  "updateQueue us \<noteq> [] \<longrightarrow> isPushing (push us) \<Longrightarrow>
   updateQueue (us_step us c) \<noteq> [] \<longrightarrow> isPushing (push (us_step us c))"
  by (cases c) (auto simp: enqueue_def dequeue_def Let_def)

lemma us_run_flag:
  "updateQueue (foldl us_step (update_set_init b) cs) \<noteq> [] \<longrightarrow>
   isPushing (push (foldl us_step (update_set_init b) cs))"
proof (induction cs rule: rev_induct)
  case Nil
  then show ?case by (simp add: update_set_init_def)
next
  case (snoc c cs)
  from us_step_pre [OF snoc.IH, of c] show ?case by simp
qed

text \<open>
  C6, as the code has it. In every state reached from the empty set by \<^verbatim>\<open>enqueue\<close> and
  \<^verbatim>\<open>dequeue\<close> calls with any keys (whatever the flag was at the start), after one more
  call, other than \<^verbatim>\<open>enqueue('__proto__')\<close>, the flag is true exactly when the set is
  non-empty. The flag is pushed to the store by every \<^verbatim>\<open>enqueue\<close> (value true) and by
  every \<^verbatim>\<open>dequeue\<close> that leaves the set empty (value false), and by no other call.
\<close>

theorem updateSet_flag_and_pushes:
  "us = foldl us_step (update_set_init b) cs \<Longrightarrow>
   (c \<noteq> Enqueue ''__proto__'' \<longrightarrow>
      isPushing (push (us_step us c)) = (updateQueue (us_step us c) \<noteq> []))
   \<and> updates (push (us_step us c)) = updates (push us) @
       (case c of
          Enqueue k \<Rightarrow> [IsPushing True]
        | Dequeue k \<Rightarrow> (if updateQueue (us_step us c) = [] then [IsPushing False] else []))"
proof -
  assume us: "us = foldl us_step (update_set_init b) cs"
  have pre: "updateQueue us \<noteq> [] \<longrightarrow> isPushing (push us)"
    unfolding us by (rule us_run_flag)
  have "updates (push (us_step us c)) = updates (push us) @
       (case c of
          Enqueue k \<Rightarrow> [IsPushing True]
        | Dequeue k \<Rightarrow> (if updateQueue (us_step us c) = [] then [IsPushing False] else []))"
    by (cases c) (simp_all add: enqueue_def dequeue_def Let_def)
  with us_step_flag [OF pre, of c] show ?thesis by simp
qed

theorem updateSet_flag_and_pushes_witness:
  "isPushing (push (us_step (foldl us_step (update_set_init True) [Enqueue ''__proto__'', Enqueue ''a'']) (Dequeue ''a'')))
     = (updateQueue (us_step (foldl us_step (update_set_init True) [Enqueue ''__proto__'', Enqueue ''a'']) (Dequeue ''a'')) \<noteq> [])
   \<and> updates (push (us_step (foldl us_step (update_set_init True) [Enqueue ''__proto__'', Enqueue ''a'']) (Dequeue ''a'')))
     = [IsPushing True, IsPushing True, IsPushing False]"
  using updateSet_flag_and_pushes [of "foldl us_step (update_set_init True) [Enqueue ''__proto__'', Enqueue ''a'']"
      True "[Enqueue ''__proto__'', Enqueue ''a'']" "Dequeue ''a''"]
  by (simp add: update_set_init_def enqueue_def dequeue_def)

text \<open>
  The claim as stated fails: a second \<^verbatim>\<open>enqueue\<close> finds the set non-empty and leaves
  it non-empty, and still pushes the flag to the store.
\<close>

theorem updateSet_redundant_push:
  "updateQueue (us_step (update_set_init False) (Enqueue ''a'')) \<noteq> []
   \<and> updateQueue (us_step (us_step (update_set_init False) (Enqueue ''a'')) (Enqueue ''b'')) \<noteq> []
   \<and> updates (push (us_step (us_step (update_set_init False) (Enqueue ''a'')) (Enqueue ''b'')))
       = updates (push (us_step (update_set_init False) (Enqueue ''a''))) @ [IsPushing True]"
  by (simp add: update_set_init_def enqueue_def)

section \<open>What the operations leave alone\<close>

lemma replicateThought_frame [simp]:
  "cfg (fst (replicateThought i st)) = cfg st"
  "dlog (fst (replicateThought i st)) = dlog st"
  "replicationQueue (fst (replicateThought i st)) = replicationQueue st"
  "rootSynced (fst (replicateThought i st)) = rootSynced st"
  "updateSet (fst (replicateThought i st)) = updateSet st"
  "dispatched (fst (replicateThought i st)) = dispatched st"
  "destroyed (fst (replicateThought i st)) = destroyed st"
  "lexemeDocs (fst (replicateThought i st)) = lexemeDocs st"
  by (simp_all add: replicateThought_def Let_def split: property.splits)

lemma replicateLexeme_frame [simp]:
  "cfg (fst (replicateLexeme i st)) = cfg st"
  "dlog (fst (replicateLexeme i st)) = dlog st"
  "replicationQueue (fst (replicateLexeme i st)) = replicationQueue st"
  "rootSynced (fst (replicateLexeme i st)) = rootSynced st"
  "updateSet (fst (replicateLexeme i st)) = updateSet st"
  "dispatched (fst (replicateLexeme i st)) = dispatched st"
  "destroyed (fst (replicateLexeme i st)) = destroyed st"
  "thoughtDocs (fst (replicateLexeme i st)) = thoughtDocs st"
  by (simp_all add: replicateLexeme_def Let_def split: property.splits)

lemma updateThought_frame [simp]:
  "cfg (fst (updateThought i t st)) = cfg st"
  "dlog (fst (updateThought i t st)) = dlog st"
  "replicationQueue (fst (updateThought i t st)) = replicationQueue st"
  "rootSynced (fst (updateThought i t st)) = rootSynced st"
  "dispatched (fst (updateThought i t st)) = dispatched st"
  "destroyed (fst (updateThought i t st)) = destroyed st"
  "lexemeDocs (fst (updateThought i t st)) = lexemeDocs st"
  by (simp_all add: updateThought_def Let_def split: property.splits prod.splits)

lemma updateLexeme_frame [simp]:
  "cfg (fst (updateLexeme i t st)) = cfg st"
  "dlog (fst (updateLexeme i t st)) = dlog st"
  "replicationQueue (fst (updateLexeme i t st)) = replicationQueue st"
  "rootSynced (fst (updateLexeme i t st)) = rootSynced st"
  "dispatched (fst (updateLexeme i t st)) = dispatched st"
  "destroyed (fst (updateLexeme i t st)) = destroyed st"
  "thoughtDocs (fst (updateLexeme i t st)) = thoughtDocs st"
  by (simp_all add: updateLexeme_def Let_def split: property.splits prod.splits)

lemma deleteThought_frame [simp]:
  "cfg (fst (deleteThought i st)) = cfg st"
  "dlog (fst (deleteThought i st)) = dlog st"
  "replicationQueue (fst (deleteThought i st)) = replicationQueue st"
  "rootSynced (fst (deleteThought i st)) = rootSynced st"
  "dispatched (fst (deleteThought i st)) = dispatched st"
  "databases (fst (deleteThought i st)) = databases st"
  "lexemeDocs (fst (deleteThought i st)) = lexemeDocs st"
  by (simp_all add: deleteThought_def Let_def split: property.splits)

lemma deleteLexeme_frame [simp]:
  "cfg (fst (deleteLexeme i st)) = cfg st"
  "dlog (fst (deleteLexeme i st)) = dlog st"
  "replicationQueue (fst (deleteLexeme i st)) = replicationQueue st"
  "rootSynced (fst (deleteLexeme i st)) = rootSynced st"
  "dispatched (fst (deleteLexeme i st)) = dispatched st"
  "databases (fst (deleteLexeme i st)) = databases st"
  "thoughtDocs (fst (deleteLexeme i st)) = thoughtDocs st"
  by (simp_all add: deleteLexeme_def Let_def split: property.splits)

lemma run_updates_frame:
  "(\<And>k x s. g (fst (f k x s)) = g s) \<Longrightarrow> g (fst (run_updates f xs st)) = g st"
proof (induction xs arbitrary: st)
  case Nil
  then show ?case by simp
next
  case (Cons kx xs)
  obtain k x where kx: "kx = (k, x)" by (cases kx)
  obtain st1 r where f: "f k x st = (st1, r)" by (cases "f k x st")
  have "g st1 = g st" using Cons.prems [of k x st] f by simp
  moreover have "g (fst (run_updates f xs st1)) = g st1"
    using Cons.IH Cons.prems by simp
  ultimately show ?case by (cases "run_updates f xs st1") (simp add: kx f)
qed

lemma run_deletes_frame:
  "(\<And>k s. g (fst (f k s)) = g s) \<Longrightarrow> g (fst (run_deletes f ks st)) = g st"
proof (induction ks arbitrary: st)
  case Nil
  then show ?case by simp
next
  case (Cons k ks)
  obtain st1 r where f: "f k st = (st1, r)" by (cases "f k st")
  have 1: "g st1 = g st" using Cons.prems [of k st] f by simp
  have 2: "g (fst (run_deletes f ks st1)) = g st1"
    using Cons.IH Cons.prems by simp
  show ?case by (cases r) (simp_all add: f 1 2)
qed

lemma fold_frame:
  "(\<And>k s. g (f k s) = g s) \<Longrightarrow> g (fold f xs st) = g st"
  by (induction xs arbitrary: st) simp_all

section \<open>The thought log observer\<close>

lemma thought_tasks_aba:
  "a \<noteq> b \<Longrightarrow> inserted (delta e) = [(a, x), (b, y), (a, z)] \<Longrightarrow>
   thoughtLog_tasks e = [ThoughtTask a z, ThoughtTask b y]"
  by (simp add: thoughtLog_tasks_def nonempty_def)

lemma add_on_free_mutex:
  "\<not> locked (mux rq) \<Longrightarrow> resolved (mux rq) = [] \<Longrightarrow>
   queue (replicationQueue (resume_next (st\<lparr>replicationQueue := add tasks rq\<rparr>))) = queue rq @ tasks
   \<and> total (replicationQueue (resume_next (st\<lparr>replicationQueue := add tasks rq\<rparr>))) =
       total rq + length tasks"
  by (simp add: resume_next_def add_def add_resumed_def tick_def lock_def tryLock_def unlock_def Let_def)

text \<open>
  C1, for one change. One change of the thought log made by another client, whose
  insertions are for the ids a, b, a from oldest to newest (a and b distinct): the
  observer builds exactly two tasks, first the one for a with the action of the newest
  entry (\<open>z\<close>), then the one for b, and hands them to the replication queue in one
  \<^verbatim>\<open>add\<close>, which counts two more tasks in \<open>total\<close> at once. When the mutex of the
  queue is free and nothing waits to resume, the two tasks are at the end of the queue,
  in this order, as soon as \<^verbatim>\<open>add\<close> resumes.
\<close>

theorem thoughtLog_observe_a_b_a:
  "transaction_origin e \<noteq> OriginClient (clientID (dlog st)) \<Longrightarrow> a \<noteq> b \<Longrightarrow>
   inserted (delta e) = [(a, x), (b, y), (a, z)] \<Longrightarrow> rq = replicationQueue st \<Longrightarrow>
   thoughtLog_tasks e = [ThoughtTask a z, ThoughtTask b y]
   \<and> thoughtLog_observe e st =
       st\<lparr>replicationQueue := add [ThoughtTask a z, ThoughtTask b y] rq\<rparr>
   \<and> total (replicationQueue (thoughtLog_observe e st)) = total rq + 2
   \<and> (\<not> locked (mux rq) \<and> resolved (mux rq) = [] \<longrightarrow>
        queue (replicationQueue (resume_next (thoughtLog_observe e st))) =
          queue rq @ [ThoughtTask a z, ThoughtTask b y]
        \<and> total (replicationQueue (resume_next (thoughtLog_observe e st))) = total rq + 2)"
proof -
  assume o: "transaction_origin e \<noteq> OriginClient (clientID (dlog st))" and ab: "a \<noteq> b"
    and ins: "inserted (delta e) = [(a, x), (b, y), (a, z)]" and rq: "rq = replicationQueue st"
  have t: "thoughtLog_tasks e = [ThoughtTask a z, ThoughtTask b y]"
    using thought_tasks_aba [OF ab ins] .
  have ob: "thoughtLog_observe e st =
       st\<lparr>replicationQueue := add [ThoughtTask a z, ThoughtTask b y] rq\<rparr>"
    using o by (simp add: thoughtLog_observe_def t rq)
  have tot: "total (replicationQueue (thoughtLog_observe e st)) = total rq + 2"
    by (simp add: ob add_def)
  have "\<not> locked (mux rq) \<and> resolved (mux rq) = [] \<longrightarrow>
        queue (replicationQueue (resume_next (thoughtLog_observe e st))) =
          queue rq @ [ThoughtTask a z, ThoughtTask b y]
        \<and> total (replicationQueue (resume_next (thoughtLog_observe e st))) = total rq + 2"
    by (simp add: ob add_on_free_mutex)
  with t ob tot show ?thesis by simp
qed

theorem thoughtLog_observe_a_b_a_witness:
  "thoughtLog_tasks
     \<lparr>transaction_origin = OriginProvider,
      delta = [DRetain 2, DInsert [(''a'', Update), (''b'', Update)], DInsert [(''a'', Delete)]]\<rparr>
     = [ThoughtTask ''a'' Delete, ThoughtTask ''b'' Update]
   \<and> total (replicationQueue (thoughtLog_observe
       \<lparr>transaction_origin = OriginProvider,
        delta = [DRetain 2, DInsert [(''a'', Update), (''b'', Update)], DInsert [(''a'', Delete)]]\<rparr>
       (engine_init demo_config 7))) = 2
   \<and> queue (replicationQueue (resume_next (thoughtLog_observe
       \<lparr>transaction_origin = OriginProvider,
        delta = [DRetain 2, DInsert [(''a'', Update), (''b'', Update)], DInsert [(''a'', Delete)]]\<rparr>
       (engine_init demo_config 7)))) = [ThoughtTask ''a'' Delete, ThoughtTask ''b'' Update]"
  using thoughtLog_observe_a_b_a [of
     "\<lparr>transaction_origin = OriginProvider,
      delta = [DRetain 2, DInsert [(''a'', Update), (''b'', Update)], DInsert [(''a'', Delete)]]\<rparr>"
     "engine_init demo_config 7" "''a''" "''b''" Update Update Delete
     "replicationQueue (engine_init demo_config 7)"]
  by (simp add: inserted_def engine_init_def taskQueue_def mutex_new_def resume_next_def add_def
        add_resumed_def tick_def lock_def tryLock_def unlock_def Let_def)

text \<open>
  The claim as stated, for every sequence of remote insertions, fails: the set of ids seen
  is made anew for each change. When the three insertions for a, b, a arrive as three
  changes, each of them hands its own task to the queue: three tasks, two of them for a.
  Here the queue has started the first two (the documents of a and b are registered) and
  holds the third, the second task for a.
\<close>

theorem thoughtLog_observe_three_changes:
  "thoughtLog_tasks \<lparr>transaction_origin = OriginProvider, delta = [DInsert [(''a'', Update)]]\<rparr>
     = [ThoughtTask ''a'' Update]
   \<and> thoughtLog_tasks \<lparr>transaction_origin = OriginProvider, delta = [DRetain 1, DInsert [(''b'', Update)]]\<rparr>
     = [ThoughtTask ''b'' Update]
   \<and> thoughtLog_tasks \<lparr>transaction_origin = OriginProvider, delta = [DRetain 2, DInsert [(''a'', Delete)]]\<rparr>
     = [ThoughtTask ''a'' Delete]
   \<and> total (replicationQueue (engine_run (engine_init demo_config 7)
       [ThoughtLogChanged \<lparr>transaction_origin = OriginProvider, delta = [DInsert [(''a'', Update)]]\<rparr>,
        ResumeNext, ResumeNext,
        ThoughtLogChanged \<lparr>transaction_origin = OriginProvider, delta = [DRetain 1, DInsert [(''b'', Update)]]\<rparr>,
        ResumeNext, ResumeNext,
        ThoughtLogChanged \<lparr>transaction_origin = OriginProvider, delta = [DRetain 2, DInsert [(''a'', Delete)]]\<rparr>,
        ResumeNext])) = 3
   \<and> queue (replicationQueue (engine_run (engine_init demo_config 7)
       [ThoughtLogChanged \<lparr>transaction_origin = OriginProvider, delta = [DInsert [(''a'', Update)]]\<rparr>,
        ResumeNext, ResumeNext,
        ThoughtLogChanged \<lparr>transaction_origin = OriginProvider, delta = [DRetain 1, DInsert [(''b'', Update)]]\<rparr>,
        ResumeNext, ResumeNext,
        ThoughtLogChanged \<lparr>transaction_origin = OriginProvider, delta = [DRetain 2, DInsert [(''a'', Delete)]]\<rparr>,
        ResumeNext])) = [ThoughtTask ''a'' Delete]
   \<and> map fst (thoughtDocs (engine_run (engine_init demo_config 7)
       [ThoughtLogChanged \<lparr>transaction_origin = OriginProvider, delta = [DInsert [(''a'', Update)]]\<rparr>,
        ResumeNext, ResumeNext,
        ThoughtLogChanged \<lparr>transaction_origin = OriginProvider, delta = [DRetain 1, DInsert [(''b'', Update)]]\<rparr>,
        ResumeNext, ResumeNext,
        ThoughtLogChanged \<lparr>transaction_origin = OriginProvider, delta = [DRetain 2, DInsert [(''a'', Delete)]]\<rparr>,
        ResumeNext])) = [''a'', ''b'']"
  by (simp add: engine_run_def thoughtLog_observe_def thoughtLog_tasks_def inserted_def nonempty_def
        engine_init_def taskQueue_def mutex_new_def add_def add_resumed_def tick_def tick_resumed_def
        resume_next_def lock_def tryLock_def unlock_def clearInterval_def Let_def demo_config_def
        replicateThought_def js_get_def Object_prototype_def new_doc_def
        encodeThoughtDocumentName_def)

section \<open>updateThoughts and the doclog\<close>

lemma logs_of_distinct:
  "distinct (map fst xs) \<Longrightarrow>
   logs_of xs = map (\<lambda>(k, v). (k, if v = None then Delete else Update)) xs"
proof -
  assume d: "distinct (map fst xs)"
  have "\<And>k v. (k, v) \<in> set xs \<Longrightarrow> map_of xs k = Some v"
    using d by simp
  then show ?thesis
    unfolding logs_of_def by (auto simp: comp_def split: option.splits)
qed

lemma trim_first_eq:
  "trim_first logs log =
     (if logs \<noteq> [] \<and> log \<noteq> [] \<and> hd logs = last log then tl logs else logs)"
  by (cases logs; cases log rule: rev_cases)
     (auto simp: trim_first_def first_entry_def last_entry_def)

lemma updateThoughts_deletes:
  "fst (updateThoughts tu lu v st) =
     (let st2 = fst (run_updates updateLexeme (updates_of lu)
                  (fst (run_updates updateThought (updates_of tu) st)));
          st3 = st2\<lparr>dlog := doclog_transact_push (trim_first (logs_of tu) (thoughtLog (dlog st2)))
                   (trim_first (logs_of lu) (lexemeLog (dlog st2))) (dlog st2)\<rparr>;
          d = run_deletes deleteThought (deletes_of tu) st3
      in (case snd d of
            Some err \<Rightarrow> fst d
          | None \<Rightarrow> fst (run_deletes deleteLexeme (deletes_of lu) (fst d))))"
  by (simp add: updateThoughts_def Let_def split: prod.splits option.splits)

lemma updateThoughts_dlog:
  "dlog (fst (updateThoughts tu lu v st)) =
     doclog_transact_push (trim_first (logs_of tu) (thoughtLog (dlog st)))
       (trim_first (logs_of lu) (lexemeLog (dlog st))) (dlog st)"
proof -
  have d: "dlog (fst (run_updates updateLexeme (updates_of lu)
                  (fst (run_updates updateThought (updates_of tu) st)))) = dlog st"
    by (simp add: run_updates_frame [of dlog])
  show ?thesis
    by (simp add: updateThoughts_deletes Let_def d run_deletes_frame [of dlog]
          split: option.splits)
qed

text \<open>
  C2. \<^verbatim>\<open>updateThoughts\<close> on update maps with the entries \<open>tu\<close> and \<open>lu\<close> (an
  object has each key once): the log entries are one per input entry in input order,
  \<open>Update\<close> for a value and \<open>Delete\<close> for null; the first entry is left out exactly when
  it equals the last entry of the doclog array; the rest is appended to both arrays in one
  transaction whose origin is the client id of the doclog.
\<close>

theorem updateThoughts_appends_logs:
  "distinct (map fst tu) \<Longrightarrow> distinct (map fst lu) \<Longrightarrow>
   st' = fst (updateThoughts tu lu v st) \<Longrightarrow>
   tlogs = map (\<lambda>(k, x). (k, if x = None then Delete else Update)) tu \<Longrightarrow>
   llogs = map (\<lambda>(k, x). (k, if x = None then Delete else Update)) lu \<Longrightarrow>
   tpushed = (if tlogs \<noteq> [] \<and> thoughtLog (dlog st) \<noteq> [] \<and> hd tlogs = last (thoughtLog (dlog st))
              then tl tlogs else tlogs) \<Longrightarrow>
   lpushed = (if llogs \<noteq> [] \<and> lexemeLog (dlog st) \<noteq> [] \<and> hd llogs = last (lexemeLog (dlog st))
              then tl llogs else llogs) \<Longrightarrow>
   logs_of tu = tlogs \<and> logs_of lu = llogs
   \<and> thoughtLog (dlog st') = thoughtLog (dlog st) @ tpushed
   \<and> lexemeLog (dlog st') = lexemeLog (dlog st) @ lpushed
   \<and> transactions (dlog st') = transactions (dlog st) @
        [\<lparr>txn_origin = OriginClient (clientID (dlog st)),
          thoughtLog_pushed = tpushed, lexemeLog_pushed = lpushed\<rparr>]
   \<and> clientID (dlog st') = clientID (dlog st)"
  by (simp add: updateThoughts_dlog logs_of_distinct trim_first_eq doclog_transact_push_def)

theorem updateThoughts_appends_logs_witness:
  "thoughtLog (dlog (fst (updateThoughts
       [(''x'', Some [(''id'', JStr ''x''), (''childrenMap'', JObj [])]), (''y'', None)]
       [(''k'', None)] 1 demo_engine))) = [(''x'', Update), (''y'', Delete)]
   \<and> lexemeLog (dlog (fst (updateThoughts
       [(''x'', Some [(''id'', JStr ''x''), (''childrenMap'', JObj [])]), (''y'', None)]
       [(''k'', None)] 1 demo_engine))) = [(''k'', Delete)]
   \<and> transactions (dlog (fst (updateThoughts
       [(''x'', Some [(''id'', JStr ''x''), (''childrenMap'', JObj [])]), (''y'', None)]
       [(''k'', None)] 1 demo_engine))) =
       [\<lparr>txn_origin = OriginClient 7, thoughtLog_pushed = [(''y'', Delete)],
         lexemeLog_pushed = [(''k'', Delete)]\<rparr>]"
  using updateThoughts_appends_logs [of
      "[(''x'', Some [(''id'', JStr ''x''), (''childrenMap'', JObj [])]), (''y'', None)]"
      "[(''k'', None)]" _ 1 demo_engine, OF _ _ refl refl refl refl refl]
  by (simp add: demo_engine_def engine_init_def)

section \<open>The lexeme log observer\<close>

lemma run_task_frame [simp]:
  "cfg (fst (run_task t st)) = cfg st"
  "dlog (fst (run_task t st)) = dlog st"
  "replicationQueue (fst (run_task t st)) = replicationQueue st"
  "rootSynced (fst (run_task t st)) = rootSynced st"
  by (cases t; simp add: dispatch_def)+


lemma lexeme_callback_frame [simp]:
  "cfg (fst (lexeme_callback e st)) = cfg st"
  "dlog (fst (lexeme_callback e st)) = dlog st"
  "replicationQueue (fst (lexeme_callback e st)) = replicationQueue st"
  "rootSynced (fst (lexeme_callback e st)) = rootSynced st"
  by (cases e; simp add: lexeme_callback_def dispatch_def)+

lemma act_at_once_frame:
  "(\<And>e s. g (fst (lexeme_callback e s)) = g s) \<Longrightarrow> g (fst (act_at_once es st)) = g st"
proof (induction es arbitrary: st)
  case Nil
  then show ?case by simp
next
  case (Cons e es)
  obtain st1 r where f: "lexeme_callback e st = (st1, r)" by (cases "lexeme_callback e st")
  have 1: "g st1 = g st" using Cons.prems [of e st] f by simp
  have 2: "g (fst (act_at_once es st1)) = g st1"
    using Cons.IH Cons.prems by simp
  show ?case by (cases r) (simp_all add: f 1 2)
qed


lemma lexeme_forEach_act_at_once:
  "lexeme_forEach seen ks st = act_at_once (surviving_spec seen ks) st"
  by (induction seen ks st rule: lexeme_forEach.induct)
     (simp_all split: prod.splits option.splits)



section \<open>The root gate\<close>

lemma settle_rootSynced:
  "rootSynced (settle k ok st) =
     (if k = ThoughtSynced (HOME_TOKEN (cfg st)) \<and> ok \<and> k \<in> set (pending st) \<and> rootSynced st = None
         \<and> js_get (thoughtDocs st) (HOME_TOKEN (cfg st)) \<noteq> Inherited
      then Some (map_option (\<lambda>d. toJSON (toJSON_deep (cfg st)) (root d))
                   (map_of (thoughtDocs st) (HOME_TOKEN (cfg st))))
      else rootSynced st)"
  by (cases k)
     (auto simp: settle_def resolveRootSynced_def dispatch_def Let_def deleteThought_settled_def
        deleteLexeme_settled_def promise_finally_def promise_catch_def deleteDB_def js_get_def
        alert_delete_error_def dequeue_handler_def
        split: option.splits property.splits if_splits)

lemma updateThoughts_rootSynced: "rootSynced (fst (updateThoughts tu lu v st)) = rootSynced st"
  by (simp add: updateThoughts_deletes Let_def run_deletes_frame [of rootSynced]
        run_updates_frame [of rootSynced] split: option.splits)

lemma resume_next_rootSynced: "rootSynced (resume_next st) = rootSynced st"
  by (simp add: resume_next_def Let_def split: list.splits resume.splits prod.splits option.splits)

lemma engine_step_rootSynced:
  "rootSynced (engine_step st ev) =
     (if ev = Settle (ThoughtSynced (HOME_TOKEN (cfg st))) True
         \<and> ThoughtSynced (HOME_TOKEN (cfg st)) \<in> set (pending st) \<and> rootSynced st = None
         \<and> js_get (thoughtDocs st) (HOME_TOKEN (cfg st)) \<noteq> Inherited
      then Some (map_option (\<lambda>d. toJSON (toJSON_deep (cfg st)) (root d))
                   (map_of (thoughtDocs st) (HOME_TOKEN (cfg st))))
      else rootSynced st)"
proof (cases ev)
  case (Settle k ok)
  then show ?thesis by (auto simp: settle_rootSynced)
next
  case (LexemeLogChanged e)
  then show ?thesis
    by (simp add: lexemeLog_observe_def lexeme_forEach_act_at_once act_at_once_frame [of rootSynced])
qed (simp_all add: updateThoughts_rootSynced thoughtLog_observe_def resume_next_rootSynced
       task_done_def split: prod.splits)

lemma engine_run_rootSynced:
  "rootSynced st = Some v \<Longrightarrow> rootSynced (foldl engine_step st evs) = Some v"
  by (induction evs arbitrary: st) (simp_all add: engine_step_rootSynced)

text \<open>
  C3, as the code has it. Once the gate is resolved, no run of the engine changes its
  value. While it is pending, one step resolves it exactly when the step is the success
  callback that \<^verbatim>\<open>replicateThought(HOME_TOKEN)\<close> left on \<^verbatim>\<open>whenSynced\<close> and the
  registry does not read an inherited property for the root id; the value is then the
  serialised root map of the document registered for the root at that moment, empty or
  not (\<^verbatim>\<open>undefined\<close> when none is registered).
\<close>

theorem rootSynced_resolved_once:
  "(rootSynced st = Some v \<longrightarrow> rootSynced (engine_run st evs) = Some v)
   \<and> (rootSynced st = None \<longrightarrow>
        rootSynced (engine_step st ev) =
          (if ev = Settle (ThoughtSynced (HOME_TOKEN (cfg st))) True
              \<and> ThoughtSynced (HOME_TOKEN (cfg st)) \<in> set (pending st)
              \<and> js_get (thoughtDocs st) (HOME_TOKEN (cfg st)) \<noteq> Inherited
           then Some (map_option (\<lambda>d. toJSON (toJSON_deep (cfg st)) (root d))
                        (map_of (thoughtDocs st) (HOME_TOKEN (cfg st))))
           else None))"
  by (simp add: engine_run_def engine_run_rootSynced engine_step_rootSynced)

text \<open>
  The claim as stated fails: the first sync of a root document that is still empty (it
  reads back as no thought) resolves the gate, with the empty object.
\<close>

theorem rootSynced_resolved_on_empty_document:
  "rootSynced (engine_run (engine_init demo_config 7)
      [CallReplicateThought ''__ROOT__'', Settle (ThoughtSynced ''__ROOT__'') True]) = Some (Some [])
   \<and> map_option (getThought True) (map_of (thoughtDocs (engine_run (engine_init demo_config 7)
      [CallReplicateThought ''__ROOT__'', Settle (ThoughtSynced ''__ROOT__'') True])) ''__ROOT__'')
       = Some (Inr None)"
  by (simp add: engine_run_def engine_init_def demo_config_def replicateThought_def
        encodeThoughtDocumentName_def new_doc_def settle_def resolveRootSynced_def toJSON_def
        to_object_def getThought_def Let_def js_get_def Object_prototype_def)

theorem rootSynced_resolved_once_witness:
  "rootSynced (engine_run (engine_init demo_config 7) [CallReplicateThought ''__ROOT__'']) = None
   \<and> rootSynced (engine_step (engine_run (engine_init demo_config 7) [CallReplicateThought ''__ROOT__''])
        (Settle (ThoughtSynced ''__ROOT__'') True)) = Some (Some [])
   \<and> rootSynced (engine_run
        (engine_step (engine_run (engine_init demo_config 7) [CallReplicateThought ''__ROOT__''])
           (Settle (ThoughtSynced ''__ROOT__'') True))
        [CallUpdateThoughts [(''__ROOT__'', Some [(''id'', JStr ''__ROOT__''), (''childrenMap'', JObj [])])] [] 1,
         CallReplicateThought ''__ROOT__'',
         Settle (ThoughtSynced ''__ROOT__'') True]) = Some (Some [])"
proof -
  let ?A = "engine_run (engine_init demo_config 7) [CallReplicateThought ''__ROOT__'']"
  let ?B = "engine_step ?A (Settle (ThoughtSynced ''__ROOT__'') True)"
  have a: "rootSynced ?A = None"
    by (simp add: engine_run_def engine_init_def)
  have c: "HOME_TOKEN (cfg ?A) = ''__ROOT__''" "toJSON_deep (cfg ?A)"
    by (simp_all add: engine_run_def engine_init_def demo_config_def)
  have A: "?A = (engine_init demo_config 7)\<lparr>
      thoughtPersistence := [(''__ROOT__'', ''ws/thought/__ROOT__'')],
      databases := [''ws/thought/__ROOT__''],
      thoughtWebsocketProvider := [(''__ROOT__'', ''ws/thought/__ROOT__'')],
      thoughtDocs := [(''__ROOT__'', \<lparr>guid = ''ws/thought/__ROOT__'', root = [], observed = True\<rparr>)],
      pending := [ThoughtSynced ''__ROOT__'']\<rparr>"
    by (simp add: engine_run_def engine_init_def demo_config_def replicateThought_def Let_def
          encodeThoughtDocumentName_def new_doc_def js_get_def Object_prototype_def)
  have p: "pending ?A = [ThoughtSynced ''__ROOT__'']"
    by (simp add: A)
  have d: "map_of (thoughtDocs ?A) ''__ROOT__'' =
      Some \<lparr>guid = ''ws/thought/__ROOT__'', root = [], observed = True\<rparr>"
    by (simp add: A)
  have j: "js_get (thoughtDocs ?A) ''__ROOT__'' \<noteq> Inherited"
    by (simp add: js_get_def d)
  have b: "rootSynced ?B = Some (Some [])"
    using rootSynced_resolved_once [of ?A _ _ "Settle (ThoughtSynced ''__ROOT__'') True"] a c p d j
    by (simp add: toJSON_def to_object_def)
  from rootSynced_resolved_once [of ?B "Some []"] b a show ?thesis by simp
qed

section \<open>Deleting: the promise and the UpdateSet\<close>

lemma dequeue_removes:
  "key \<notin> set (updateQueue (dequeue key q))"
  "updateQueue (dequeue key q) = [] \<longrightarrow> \<not> isPushing (push (dequeue key q))"
  by (simp_all add: dequeue_def Let_def)

lemma deleteThought_settled_eq:
  "deleteThought_settled i ok s =
     ((if ok then s\<lparr>databases := removeAll (encodeThoughtDocumentName (tsid (cfg s)) i) (databases s)\<rparr>
       else dispatch (Alert ''Error deleting thought'') s)
      \<lparr>updateSet := dequeue i (updateSet s)\<rparr>, Resolved ())"
  by (simp add: deleteThought_settled_def promise_finally_def promise_catch_def deleteDB_def
        alert_delete_error_def dequeue_handler_def dispatch_def)

lemma deleteLexeme_settled_eq:
  "deleteLexeme_settled key ok s =
     ((if ok then s\<lparr>databases := removeAll (encodeLexemeDocumentName (tsid (cfg s)) key) (databases s)\<rparr>
       else dispatch (Alert ''Error deleting thought'') s)
      \<lparr>updateSet := dequeue key (updateSet s)\<rparr>, Resolved ())"
  by (simp add: deleteLexeme_settled_def promise_finally_def promise_catch_def deleteDB_def
        alert_delete_error_def dequeue_handler_def dispatch_def)

lemma deleteThought_returns:
  "js_get (thoughtDocs st) i \<noteq> Inherited \<Longrightarrow>
   snd (deleteThought i st) = None
   \<and> pending (fst (deleteThought i st)) = pending st @ [ThoughtDeleted i]
   \<and> updateSet (fst (deleteThought i st)) = enqueue i (updateSet st)"
  by (cases "js_get (thoughtDocs st) i") (simp_all add: deleteThought_def Let_def)

lemma deleteThought_throws:
  "js_get (thoughtDocs st) i = Inherited \<Longrightarrow>
   deleteThought i st =
     (st\<lparr>updateSet := enqueue i (updateSet st)\<rparr>,
      Some (TypeError ''thoughtDocs[id].getMap is not a function''))"
  by (simp add: deleteThought_def Let_def)

lemma deleteLexeme_returns:
  "js_get (lexemeDocs st) key \<noteq> Inherited \<Longrightarrow>
   snd (deleteLexeme key st) = None
   \<and> pending (fst (deleteLexeme key st)) = pending st @ [LexemeDeleted key]
   \<and> updateSet (fst (deleteLexeme key st)) = enqueue key (updateSet st)"
  by (cases "js_get (lexemeDocs st) key") (simp_all add: deleteLexeme_def Let_def)

lemma deleteLexeme_throws:
  "js_get (lexemeDocs st) key = Inherited \<Longrightarrow>
   deleteLexeme key st =
     (st\<lparr>updateSet := enqueue key (updateSet st)\<rparr>,
      Some (TypeError ''lexemeDocs[key].getMap is not a function''))"
  by (simp add: deleteLexeme_def Let_def)

lemma enqueue_pushing:
  "isPushing (push (enqueue key q))"
  "key \<noteq> ''__proto__'' \<Longrightarrow> key \<in> set (updateQueue (enqueue key q))"
  by (simp_all add: enqueue_def)

text \<open>
  C8. \<^verbatim>\<open>deleteThought(id)\<close>, when the registry does not read an inherited property for
  the id, returns its promise, with the database request under way. That promise, settled
  in any state and whether the request succeeded or failed, is resolved, never rejected;
  the key is then no longer in the UpdateSet, and if the set is empty the flag is off; a
  failure is reported by one alert and nothing else is dispatched. When the registry reads
  an inherited property for the id, \<^verbatim>\<open>deleteThought(id)\<close> throws a \<open>TypeError\<close> instead
  of returning a promise: no request is under way and no finalizer is left to run, the
  flag is on and the key (unless it is \<^verbatim>\<open>__proto__\<close>) is in the UpdateSet. The same
  for \<^verbatim>\<open>deleteLexeme(key)\<close>.
\<close>

theorem delete_returns_or_throws:
  "(js_get (thoughtDocs st) i \<noteq> Inherited \<longrightarrow>
      snd (deleteThought i st) = None
      \<and> pending (fst (deleteThought i st)) = pending st @ [ThoughtDeleted i]
      \<and> i \<notin> set (updateQueue (updateSet (settle (ThoughtDeleted i) ok (fst (deleteThought i st))))))
   \<and> snd (deleteThought_settled i ok s) = Resolved ()
   \<and> i \<notin> set (updateQueue (updateSet (fst (deleteThought_settled i ok s))))
   \<and> (updateQueue (updateSet (fst (deleteThought_settled i ok s))) = [] \<longrightarrow>
        \<not> isPushing (push (updateSet (fst (deleteThought_settled i ok s)))))
   \<and> dispatched (fst (deleteThought_settled i ok s)) =
        dispatched s @ (if ok then [] else [Alert ''Error deleting thought''])
   \<and> (js_get (thoughtDocs st) i = Inherited \<longrightarrow>
        snd (deleteThought i st) = Some (TypeError ''thoughtDocs[id].getMap is not a function'')
        \<and> pending (fst (deleteThought i st)) = pending st
        \<and> isPushing (push (updateSet (fst (deleteThought i st))))
        \<and> (i \<noteq> ''__proto__'' \<longrightarrow> i \<in> set (updateQueue (updateSet (fst (deleteThought i st))))))
   \<and> (js_get (lexemeDocs st) key \<noteq> Inherited \<longrightarrow>
      snd (deleteLexeme key st) = None
      \<and> pending (fst (deleteLexeme key st)) = pending st @ [LexemeDeleted key]
      \<and> key \<notin> set (updateQueue (updateSet (settle (LexemeDeleted key) ok (fst (deleteLexeme key st))))))
   \<and> snd (deleteLexeme_settled key ok s) = Resolved ()
   \<and> key \<notin> set (updateQueue (updateSet (fst (deleteLexeme_settled key ok s))))
   \<and> (updateQueue (updateSet (fst (deleteLexeme_settled key ok s))) = [] \<longrightarrow>
        \<not> isPushing (push (updateSet (fst (deleteLexeme_settled key ok s)))))
   \<and> dispatched (fst (deleteLexeme_settled key ok s)) =
        dispatched s @ (if ok then [] else [Alert ''Error deleting thought''])
   \<and> (js_get (lexemeDocs st) key = Inherited \<longrightarrow>
        snd (deleteLexeme key st) = Some (TypeError ''lexemeDocs[key].getMap is not a function'')
        \<and> pending (fst (deleteLexeme key st)) = pending st
        \<and> isPushing (push (updateSet (fst (deleteLexeme key st))))
        \<and> (key \<noteq> ''__proto__'' \<longrightarrow> key \<in> set (updateQueue (updateSet (fst (deleteLexeme key st))))))"
proof -
  have t1: "js_get (thoughtDocs st) i \<noteq> Inherited \<longrightarrow>
      snd (deleteThought i st) = None
      \<and> pending (fst (deleteThought i st)) = pending st @ [ThoughtDeleted i]
      \<and> i \<notin> set (updateQueue (updateSet (settle (ThoughtDeleted i) ok (fst (deleteThought i st)))))"
    using deleteThought_returns [of st i]
    by (simp add: settle_def deleteThought_settled_eq dequeue_removes)
  have t2: "js_get (thoughtDocs st) i = Inherited \<longrightarrow>
        snd (deleteThought i st) = Some (TypeError ''thoughtDocs[id].getMap is not a function'')
        \<and> pending (fst (deleteThought i st)) = pending st
        \<and> isPushing (push (updateSet (fst (deleteThought i st))))
        \<and> (i \<noteq> ''__proto__'' \<longrightarrow> i \<in> set (updateQueue (updateSet (fst (deleteThought i st)))))"
    by (simp add: deleteThought_throws enqueue_pushing)
  have l1: "js_get (lexemeDocs st) key \<noteq> Inherited \<longrightarrow>
      snd (deleteLexeme key st) = None
      \<and> pending (fst (deleteLexeme key st)) = pending st @ [LexemeDeleted key]
      \<and> key \<notin> set (updateQueue (updateSet (settle (LexemeDeleted key) ok (fst (deleteLexeme key st)))))"
    using deleteLexeme_returns [of st key]
    by (simp add: settle_def deleteLexeme_settled_eq dequeue_removes)
  have l2: "js_get (lexemeDocs st) key = Inherited \<longrightarrow>
        snd (deleteLexeme key st) = Some (TypeError ''lexemeDocs[key].getMap is not a function'')
        \<and> pending (fst (deleteLexeme key st)) = pending st
        \<and> isPushing (push (updateSet (fst (deleteLexeme key st))))
        \<and> (key \<noteq> ''__proto__'' \<longrightarrow> key \<in> set (updateQueue (updateSet (fst (deleteLexeme key st)))))"
    by (simp add: deleteLexeme_throws enqueue_pushing)
  have s: "snd (deleteThought_settled i ok s) = Resolved ()
   \<and> i \<notin> set (updateQueue (updateSet (fst (deleteThought_settled i ok s))))
   \<and> (updateQueue (updateSet (fst (deleteThought_settled i ok s))) = [] \<longrightarrow>
        \<not> isPushing (push (updateSet (fst (deleteThought_settled i ok s)))))
   \<and> dispatched (fst (deleteThought_settled i ok s)) =
        dispatched s @ (if ok then [] else [Alert ''Error deleting thought''])
   \<and> snd (deleteLexeme_settled key ok s) = Resolved ()
   \<and> key \<notin> set (updateQueue (updateSet (fst (deleteLexeme_settled key ok s))))
   \<and> (updateQueue (updateSet (fst (deleteLexeme_settled key ok s))) = [] \<longrightarrow>
        \<not> isPushing (push (updateSet (fst (deleteLexeme_settled key ok s)))))
   \<and> dispatched (fst (deleteLexeme_settled key ok s)) =
        dispatched s @ (if ok then [] else [Alert ''Error deleting thought''])"
    by (simp add: deleteThought_settled_eq deleteLexeme_settled_eq dequeue_removes dispatch_def)
  from t1 t2 l1 l2 s show ?thesis by blast
qed

theorem delete_returns_or_throws_witness:
  "snd (deleteThought ''x'' demo_registered) = None
   \<and> pending (fst (deleteThought ''x'' demo_registered)) = [ThoughtSynced ''x'', ThoughtDeleted ''x'']
   \<and> updateQueue (updateSet (fst (deleteThought ''x'' demo_registered))) = [''x'']
   \<and> updateQueue (updateSet (settle (ThoughtDeleted ''x'') False (fst (deleteThought ''x'' demo_registered)))) = []
   \<and> \<not> isPushing (push (updateSet (settle (ThoughtDeleted ''x'') False (fst (deleteThought ''x'' demo_registered)))))
   \<and> dispatched (settle (ThoughtDeleted ''x'') False (fst (deleteThought ''x'' demo_registered))) =
        [Alert ''Error deleting thought'']
   \<and> snd (deleteThought ''constructor'' demo_registered) =
        Some (TypeError ''thoughtDocs[id].getMap is not a function'')
   \<and> pending (fst (deleteThought ''constructor'' demo_registered)) = [ThoughtSynced ''x'']
   \<and> isPushing (push (updateSet (fst (deleteThought ''constructor'' demo_registered))))
   \<and> updateQueue (updateSet (fst (deleteThought ''constructor'' demo_registered))) = [''constructor'']
   \<and> snd (deleteLexeme ''k'' demo_registered) = None
   \<and> snd (deleteLexeme ''toString'' demo_registered) =
        Some (TypeError ''lexemeDocs[key].getMap is not a function'')"
proof -
  have R: "demo_registered = (engine_init demo_config 7)\<lparr>
      thoughtPersistence := [(''x'', ''ws/thought/x'')],
      databases := [''ws/thought/x''],
      thoughtWebsocketProvider := [(''x'', ''ws/thought/x'')],
      thoughtDocs := [(''x'', \<lparr>guid = ''ws/thought/x'', root = [], observed = True\<rparr>)],
      pending := [ThoughtSynced ''x'']\<rparr>"
    by (simp add: demo_registered_def engine_init_def demo_config_def replicateThought_def Let_def
          encodeThoughtDocumentName_def new_doc_def js_get_def Object_prototype_def)
  have j: "js_get (thoughtDocs demo_registered) ''x'' \<noteq> Inherited"
    "js_get (thoughtDocs demo_registered) ''constructor'' = Inherited"
    "js_get (lexemeDocs demo_registered) ''k'' \<noteq> Inherited"
    "js_get (lexemeDocs demo_registered) ''toString'' = Inherited"
    by (simp_all add: R js_get_def Object_prototype_def engine_init_def)
  have p: "pending demo_registered = [ThoughtSynced ''x'']"
    "updateSet demo_registered = update_set_init False" "dispatched demo_registered = []"
    by (simp_all add: R engine_init_def)
  have q: "updateQueue (updateSet (fst (deleteThought ''x'' demo_registered))) = [''x'']"
    "dispatched (fst (deleteThought ''x'' demo_registered)) = []"
    "updateQueue (updateSet (fst (deleteThought ''constructor'' demo_registered))) = [''constructor'']"
    using deleteThought_returns [OF j(1)] deleteThought_throws [OF j(2)]
    by (simp_all add: p enqueue_def update_set_init_def)
  have e: "updateQueue (updateSet (settle (ThoughtDeleted ''x'') False (fst (deleteThought ''x'' demo_registered)))) = []"
    "\<not> isPushing (push (updateSet (settle (ThoughtDeleted ''x'') False (fst (deleteThought ''x'' demo_registered)))))"
    "dispatched (settle (ThoughtDeleted ''x'') False (fst (deleteThought ''x'' demo_registered))) =
        [Alert ''Error deleting thought'']"
    using deleteThought_returns [OF j(1)] q
    by (simp_all add: settle_def deleteThought_settled_eq dequeue_def dispatch_def p enqueue_def
          update_set_init_def)
  from delete_returns_or_throws [of demo_registered "''x''" False demo_registered "''k''"]
       delete_returns_or_throws [of demo_registered "''constructor''" False demo_registered "''toString''"]
  show ?thesis using j p q e by simp
qed

section \<open>The document is there before the first suspension\<close>

lemma js_get_Own: "(js_get obj key = Own v) = (map_of obj key = Some v)"
  by (simp add: js_get_def split: option.splits)


lemma js_get_Inherited: "(js_get obj key = Inherited) = (map_of obj key = None \<and> key \<in> set Object_prototype)"
  by (simp add: js_get_def split: option.splits)

lemma js_get_update: "js_get (AList.update key v obj) key = Own v"
  by (simp add: js_get_def update_conv')

lemma replicateThought_docs:
  "thoughtDocs (fst (replicateThought i st)) =
     (if js_get (thoughtDocs st) i = Absent
      then AList.update i ((new_doc (encodeThoughtDocumentName (tsid (cfg st)) i))\<lparr>observed := True\<rparr>)
             (thoughtDocs st)
      else thoughtDocs st)"
  by (simp add: replicateThought_def Let_def split: property.splits)

lemma replicateLexeme_docs:
  "lexemeDocs (fst (replicateLexeme key st)) =
     (if js_get (lexemeDocs st) key = Absent
      then AList.update key ((new_doc (encodeLexemeDocumentName (tsid (cfg st)) key))\<lparr>observed := True\<rparr>)
             (lexemeDocs st)
      else lexemeDocs st)"
  by (simp add: replicateLexeme_def Let_def split: property.splits)

lemma replicateThought_installs:
  "js_get (thoughtDocs st) i \<noteq> Inherited \<Longrightarrow> map_of (thoughtDocs (fst (replicateThought i st))) i \<noteq> None"
  by (cases "js_get (thoughtDocs st) i")
     (auto simp: replicateThought_docs update_conv' js_get_Own)

lemma replicateLexeme_installs:
  "js_get (lexemeDocs st) key \<noteq> Inherited \<Longrightarrow> map_of (lexemeDocs (fst (replicateLexeme key st))) key \<noteq> None"
  by (cases "js_get (lexemeDocs st) key")
     (auto simp: replicateLexeme_docs update_conv' js_get_Own)

lemma run_entries_error:
  "(\<And>e m. snd (f e m) \<noteq> Some err) \<Longrightarrow> snd (run_entries f es m) \<noteq> Some err"
proof (induction es arbitrary: m)
  case Nil
  then show ?case by simp
next
  case (Cons e es)
  obtain m1 r where f: "f e m = (m1, r)" by (cases "f e m")
  show ?case
  proof (cases r)
    case None
    then show ?thesis using Cons f by simp
  next
    case (Some a)
    then show ?thesis using Cons.prems [of e m] f by simp
  qed
qed

lemma thought_entry_error:
  "snd (thought_entry thought e m) \<noteq> Some (TypeError ''thoughtDoc is undefined'')"
  "snd (thought_entry thought e m) \<noteq> Some (TypeError ''thoughtDoc.transact is not a function'')"
  by (auto simp: thought_entry_def nested_slot_def delete_stale_children_def entries_of_def
        split: prod.splits sum.splits option.splits jsval.splits if_splits)

lemma lexeme_entry_error:
  "snd (lexeme_entry e m) \<noteq> Some (TypeError ''lexemeDoc is undefined'')"
  "snd (lexeme_entry e m) \<noteq> Some (TypeError ''lexemeDoc.transact is not a function'')"
  by (auto simp: lexeme_entry_def nested_slot_def
        split: prod.splits sum.splits option.splits jsval.splits if_splits)

lemma thought_transact_error:
  "snd (thought_transact db thought d) \<noteq> Some (TypeError ''thoughtDoc is undefined'')"
  "snd (thought_transact db thought d) \<noteq> Some (TypeError ''thoughtDoc.transact is not a function'')"
proof -
  have s: "snd (thought_transact db thought d) = snd (run_entries (thought_entry thought) db (root d))"
    by (cases "run_entries (thought_entry thought) db (root d)") (simp add: thought_transact_def)
  show "snd (thought_transact db thought d) \<noteq> Some (TypeError ''thoughtDoc is undefined'')"
    unfolding s by (rule run_entries_error) (rule thought_entry_error(1))
  show "snd (thought_transact db thought d) \<noteq> Some (TypeError ''thoughtDoc.transact is not a function'')"
    unfolding s by (rule run_entries_error) (rule thought_entry_error(2))
qed

lemma lexeme_transact_error:
  "snd (lexeme_transact lexeme d) \<noteq> Some (TypeError ''lexemeDoc is undefined'')"
  "snd (lexeme_transact lexeme d) \<noteq> Some (TypeError ''lexemeDoc.transact is not a function'')"
proof -
  have s: "snd (lexeme_transact lexeme d) = snd (run_entries lexeme_entry lexeme (root d))"
    by (cases "run_entries lexeme_entry lexeme (root d)") (simp add: lexeme_transact_def)
  show "snd (lexeme_transact lexeme d) \<noteq> Some (TypeError ''lexemeDoc is undefined'')"
    unfolding s by (rule run_entries_error) (rule lexeme_entry_error(1))
  show "snd (lexeme_transact lexeme d) \<noteq> Some (TypeError ''lexemeDoc.transact is not a function'')"
    unfolding s by (rule run_entries_error) (rule lexeme_entry_error(2))
qed

text \<open>The document that \<^verbatim>\<open>updateThought\<close> holds after its first three lines.\<close>

lemma updateThought_cases:
  assumes "st1 = (case js_get (thoughtDocs st) i of Absent \<Rightarrow> fst (replicateThought i st) | _ \<Rightarrow> st)"
  shows "js_get (thoughtDocs st) i \<noteq> Inherited \<Longrightarrow> \<exists>d. js_get (thoughtDocs st1) i = Own d"
    and "js_get (thoughtDocs st) i = Inherited \<Longrightarrow> js_get (thoughtDocs st1) i = Inherited"
  using assms
  by (cases "js_get (thoughtDocs st) i"; simp add: replicateThought_docs js_get_update)+

lemma updateLexeme_cases:
  assumes "st1 = (case js_get (lexemeDocs st) key of Absent \<Rightarrow> fst (replicateLexeme key st) | _ \<Rightarrow> st)"
  shows "js_get (lexemeDocs st) key \<noteq> Inherited \<Longrightarrow> \<exists>d. js_get (lexemeDocs st1) key = Own d"
    and "js_get (lexemeDocs st) key = Inherited \<Longrightarrow> js_get (lexemeDocs st1) key = Inherited"
  using assms
  by (cases "js_get (lexemeDocs st) key"; simp add: replicateLexeme_docs js_get_update)+

lemma updateThought_document:
  assumes "js_get (thoughtDocs st) i \<noteq> Inherited"
  shows "map_of (thoughtDocs (fst (updateThought i thought st))) i \<noteq> None"
    and "snd (updateThought i thought st) \<noteq> Rejected (TypeError ''thoughtDoc is undefined'')"
    and "snd (updateThought i thought st) \<noteq> Rejected (TypeError ''thoughtDoc.transact is not a function'')"
proof -
  define st1 where "st1 = (case js_get (thoughtDocs st) i of Absent \<Rightarrow> fst (replicateThought i st) | _ \<Rightarrow> st)"
  obtain d where d: "js_get (thoughtDocs st1) i = Own d"
    using updateThought_cases(1) [OF st1_def assms] by auto
  then have m: "map_of (thoughtDocs st1) i = Some d" by (simp add: js_get_Own)
  obtain d1 err where r: "thought_transact (thoughtToDb (cfg st1) thought) thought d = (d1, err)"
    by (cases "thought_transact (thoughtToDb (cfg st1) thought) thought d")
  have e: "err \<noteq> Some (TypeError ''thoughtDoc is undefined'')"
    "err \<noteq> Some (TypeError ''thoughtDoc.transact is not a function'')"
    using thought_transact_error [of "thoughtToDb (cfg st1) thought" thought d] r by simp_all
  show "map_of (thoughtDocs (fst (updateThought i thought st))) i \<noteq> None"
    unfolding updateThought_def st1_def [symmetric] Let_def
    by (cases "js_get (thoughtPersistence st1) (id_of thought)") (simp_all add: d m r update_conv')
  show "snd (updateThought i thought st) \<noteq> Rejected (TypeError ''thoughtDoc is undefined'')"
    unfolding updateThought_def st1_def [symmetric] Let_def
    using e(1)
    by (cases "js_get (thoughtPersistence st1) (id_of thought)"; cases err) (simp_all add: d r)
  show "snd (updateThought i thought st) \<noteq> Rejected (TypeError ''thoughtDoc.transact is not a function'')"
    unfolding updateThought_def st1_def [symmetric] Let_def
    using e(2)
    by (cases "js_get (thoughtPersistence st1) (id_of thought)"; cases err) (simp_all add: d r)
qed

lemma updateThought_no_document:
  assumes "js_get (thoughtDocs st) i = Inherited"
  shows "thoughtDocs (fst (updateThought i thought st)) = thoughtDocs st"
    and "snd (updateThought i thought st) =
           Rejected (TypeError (if js_get (thoughtPersistence st) (id_of thought) = Inherited
                                then ''thoughtPersistence[thought.id].whenSynced is undefined''
                                else ''thoughtDoc.transact is not a function''))"
  using assms by (simp_all add: updateThought_def Let_def split: property.splits)

lemma updateLexeme_document:
  assumes "js_get (lexemeDocs st) key \<noteq> Inherited"
  shows "map_of (lexemeDocs (fst (updateLexeme key lexeme st))) key \<noteq> None"
    and "snd (updateLexeme key lexeme st) \<noteq> Rejected (TypeError ''lexemeDoc is undefined'')"
    and "snd (updateLexeme key lexeme st) \<noteq> Rejected (TypeError ''lexemeDoc.transact is not a function'')"
proof -
  define st1 where "st1 = (case js_get (lexemeDocs st) key of Absent \<Rightarrow> fst (replicateLexeme key st) | _ \<Rightarrow> st)"
  obtain d where d: "js_get (lexemeDocs st1) key = Own d"
    using updateLexeme_cases(1) [OF st1_def assms] by auto
  then have m: "map_of (lexemeDocs st1) key = Some d" by (simp add: js_get_Own)
  obtain d1 err where r: "lexeme_transact lexeme d = (d1, err)"
    by (cases "lexeme_transact lexeme d")
  have e: "err \<noteq> Some (TypeError ''lexemeDoc is undefined'')"
    "err \<noteq> Some (TypeError ''lexemeDoc.transact is not a function'')"
    using lexeme_transact_error [of lexeme d] r by simp_all
  show "map_of (lexemeDocs (fst (updateLexeme key lexeme st))) key \<noteq> None"
    unfolding updateLexeme_def st1_def [symmetric] Let_def
    by (cases "js_get (lexemePersistence st1) key") (simp_all add: d m r update_conv')
  show "snd (updateLexeme key lexeme st) \<noteq> Rejected (TypeError ''lexemeDoc is undefined'')"
    unfolding updateLexeme_def st1_def [symmetric] Let_def
    using e(1)
    by (cases "js_get (lexemePersistence st1) key"; cases err) (simp_all add: d r)
  show "snd (updateLexeme key lexeme st) \<noteq> Rejected (TypeError ''lexemeDoc.transact is not a function'')"
    unfolding updateLexeme_def st1_def [symmetric] Let_def
    using e(2)
    by (cases "js_get (lexemePersistence st1) key"; cases err) (simp_all add: d r)
qed

lemma updateLexeme_no_document:
  assumes "js_get (lexemeDocs st) key = Inherited"
  shows "lexemeDocs (fst (updateLexeme key lexeme st)) = lexemeDocs st"
    and "snd (updateLexeme key lexeme st) =
           Rejected (TypeError (if js_get (lexemePersistence st) key = Inherited
                                then ''lexemePersistence[key].whenSynced is undefined''
                                else ''lexemeDoc.transact is not a function''))"
  using assms by (simp_all add: updateLexeme_def Let_def split: property.splits)

text \<open>
  C10. When the registry does not read an inherited property for the id,
  \<^verbatim>\<open>replicateThought(id)\<close>, up to its first \<^verbatim>\<open>await\<close>, leaves a document registered
  under the id, and \<^verbatim>\<open>updateThought\<close>, which calls it without awaiting, has a document
  to transact on: it never fails on an undefined entry or on one that is no document.
  When the registry reads an inherited property for the id (the id names a property of
  \<^verbatim>\<open>Object.prototype\<close> and nothing is registered under it),
  \<^verbatim>\<open>replicateThought(id)\<close> installs nothing, and \<^verbatim>\<open>updateThought\<close> finds no document
  and rejects with a \<open>TypeError\<close>. The same for \<^verbatim>\<open>replicateLexeme\<close> and
  \<^verbatim>\<open>updateLexeme\<close>.
\<close>

theorem replicate_installs_unless_inherited:
  "(js_get (thoughtDocs st) i \<noteq> Inherited \<longrightarrow>
      map_of (thoughtDocs (fst (replicateThought i st))) i \<noteq> None
      \<and> map_of (thoughtDocs (fst (updateThought i thought st))) i \<noteq> None
      \<and> snd (updateThought i thought st) \<noteq> Rejected (TypeError ''thoughtDoc is undefined'')
      \<and> snd (updateThought i thought st) \<noteq> Rejected (TypeError ''thoughtDoc.transact is not a function''))
   \<and> (js_get (thoughtDocs st) i = Inherited \<longrightarrow>
      thoughtDocs (fst (replicateThought i st)) = thoughtDocs st
      \<and> map_of (thoughtDocs (fst (replicateThought i st))) i = None
      \<and> map_of (thoughtDocs (fst (updateThought i thought st))) i = None
      \<and> snd (updateThought i thought st) =
           Rejected (TypeError (if js_get (thoughtPersistence st) (id_of thought) = Inherited
                                then ''thoughtPersistence[thought.id].whenSynced is undefined''
                                else ''thoughtDoc.transact is not a function'')))
   \<and> (js_get (lexemeDocs st) key \<noteq> Inherited \<longrightarrow>
      map_of (lexemeDocs (fst (replicateLexeme key st))) key \<noteq> None
      \<and> map_of (lexemeDocs (fst (updateLexeme key lexeme st))) key \<noteq> None
      \<and> snd (updateLexeme key lexeme st) \<noteq> Rejected (TypeError ''lexemeDoc is undefined'')
      \<and> snd (updateLexeme key lexeme st) \<noteq> Rejected (TypeError ''lexemeDoc.transact is not a function''))
   \<and> (js_get (lexemeDocs st) key = Inherited \<longrightarrow>
      lexemeDocs (fst (replicateLexeme key st)) = lexemeDocs st
      \<and> map_of (lexemeDocs (fst (replicateLexeme key st))) key = None
      \<and> map_of (lexemeDocs (fst (updateLexeme key lexeme st))) key = None
      \<and> snd (updateLexeme key lexeme st) =
           Rejected (TypeError (if js_get (lexemePersistence st) key = Inherited
                                then ''lexemePersistence[key].whenSynced is undefined''
                                else ''lexemeDoc.transact is not a function'')))"
proof -
  have t1: "js_get (thoughtDocs st) i \<noteq> Inherited \<longrightarrow>
      map_of (thoughtDocs (fst (replicateThought i st))) i \<noteq> None
      \<and> map_of (thoughtDocs (fst (updateThought i thought st))) i \<noteq> None
      \<and> snd (updateThought i thought st) \<noteq> Rejected (TypeError ''thoughtDoc is undefined'')
      \<and> snd (updateThought i thought st) \<noteq> Rejected (TypeError ''thoughtDoc.transact is not a function'')"
    using replicateThought_installs [of st i] updateThought_document [of st i thought] by blast
  have t2: "js_get (thoughtDocs st) i = Inherited \<longrightarrow>
      thoughtDocs (fst (replicateThought i st)) = thoughtDocs st
      \<and> map_of (thoughtDocs (fst (replicateThought i st))) i = None
      \<and> map_of (thoughtDocs (fst (updateThought i thought st))) i = None
      \<and> snd (updateThought i thought st) =
           Rejected (TypeError (if js_get (thoughtPersistence st) (id_of thought) = Inherited
                                then ''thoughtPersistence[thought.id].whenSynced is undefined''
                                else ''thoughtDoc.transact is not a function''))"
  proof
    assume a: "js_get (thoughtDocs st) i = Inherited"
    then have n: "map_of (thoughtDocs st) i = None" by (simp add: js_get_Inherited)
    show "thoughtDocs (fst (replicateThought i st)) = thoughtDocs st
      \<and> map_of (thoughtDocs (fst (replicateThought i st))) i = None
      \<and> map_of (thoughtDocs (fst (updateThought i thought st))) i = None
      \<and> snd (updateThought i thought st) =
           Rejected (TypeError (if js_get (thoughtPersistence st) (id_of thought) = Inherited
                                then ''thoughtPersistence[thought.id].whenSynced is undefined''
                                else ''thoughtDoc.transact is not a function''))"
      using updateThought_no_document [OF a, of thought] by (simp add: replicateThought_docs a n)
  qed
  have l1: "js_get (lexemeDocs st) key \<noteq> Inherited \<longrightarrow>
      map_of (lexemeDocs (fst (replicateLexeme key st))) key \<noteq> None
      \<and> map_of (lexemeDocs (fst (updateLexeme key lexeme st))) key \<noteq> None
      \<and> snd (updateLexeme key lexeme st) \<noteq> Rejected (TypeError ''lexemeDoc is undefined'')
      \<and> snd (updateLexeme key lexeme st) \<noteq> Rejected (TypeError ''lexemeDoc.transact is not a function'')"
    using replicateLexeme_installs [of st key] updateLexeme_document [of st key lexeme] by blast
  have l2: "js_get (lexemeDocs st) key = Inherited \<longrightarrow>
      lexemeDocs (fst (replicateLexeme key st)) = lexemeDocs st
      \<and> map_of (lexemeDocs (fst (replicateLexeme key st))) key = None
      \<and> map_of (lexemeDocs (fst (updateLexeme key lexeme st))) key = None
      \<and> snd (updateLexeme key lexeme st) =
           Rejected (TypeError (if js_get (lexemePersistence st) key = Inherited
                                then ''lexemePersistence[key].whenSynced is undefined''
                                else ''lexemeDoc.transact is not a function''))"
  proof
    assume a: "js_get (lexemeDocs st) key = Inherited"
    then have n: "map_of (lexemeDocs st) key = None" by (simp add: js_get_Inherited)
    show "lexemeDocs (fst (replicateLexeme key st)) = lexemeDocs st
      \<and> map_of (lexemeDocs (fst (replicateLexeme key st))) key = None
      \<and> map_of (lexemeDocs (fst (updateLexeme key lexeme st))) key = None
      \<and> snd (updateLexeme key lexeme st) =
           Rejected (TypeError (if js_get (lexemePersistence st) key = Inherited
                                then ''lexemePersistence[key].whenSynced is undefined''
                                else ''lexemeDoc.transact is not a function''))"
      using updateLexeme_no_document [OF a, of lexeme] by (simp add: replicateLexeme_docs a n)
  qed
  from t1 t2 l1 l2 show ?thesis by blast
qed

theorem replicate_installs_unless_inherited_witness:
  "map_of (thoughtDocs (fst (replicateThought ''x'' (engine_init demo_config 7)))) ''x'' \<noteq> None
   \<and> snd (updateThought ''x'' [(''id'', JStr ''x''), (''childrenMap'', JObj [])] (engine_init demo_config 7))
       \<noteq> Rejected (TypeError ''thoughtDoc is undefined'')
   \<and> thoughtDocs (fst (replicateThought ''constructor'' (engine_init demo_config 7))) = []
   \<and> map_of (thoughtDocs (fst (updateThought ''constructor''
        [(''id'', JStr ''constructor''), (''childrenMap'', JObj [])] (engine_init demo_config 7)))) ''constructor'' = None
   \<and> snd (updateThought ''constructor'' [(''id'', JStr ''constructor''), (''childrenMap'', JObj [])]
        (engine_init demo_config 7)) =
       Rejected (TypeError ''thoughtPersistence[thought.id].whenSynced is undefined'')
   \<and> map_of (lexemeDocs (fst (replicateLexeme ''k'' (engine_init demo_config 7)))) ''k'' \<noteq> None
   \<and> snd (updateLexeme ''__proto__'' [(''contexts'', JArr [])] (engine_init demo_config 7)) =
       Rejected (TypeError ''lexemePersistence[key].whenSynced is undefined'')"
proof -
  have j: "js_get (thoughtDocs (engine_init demo_config 7)) ''x'' \<noteq> Inherited"
    "js_get (thoughtDocs (engine_init demo_config 7)) ''constructor'' = Inherited"
    "js_get (lexemeDocs (engine_init demo_config 7)) ''k'' \<noteq> Inherited"
    "js_get (lexemeDocs (engine_init demo_config 7)) ''__proto__'' = Inherited"
    "js_get (thoughtPersistence (engine_init demo_config 7)) ''constructor'' = Inherited"
    "js_get (lexemePersistence (engine_init demo_config 7)) ''__proto__'' = Inherited"
    "thoughtDocs (engine_init demo_config 7) = []"
    by (simp_all add: js_get_def Object_prototype_def engine_init_def)
  from replicate_installs_unless_inherited [of "engine_init demo_config 7" "''x''"
         "[(''id'', JStr ''x''), (''childrenMap'', JObj [])]" "''k''" "[(''contexts'', JArr [])]"]
       replicate_installs_unless_inherited [of "engine_init demo_config 7" "''constructor''"
         "[(''id'', JStr ''constructor''), (''childrenMap'', JObj [])]" "''__proto__''" "[(''contexts'', JArr [])]"]
  show ?thesis using j by (simp add: id_of_def)
qed

section \<open>The thought codec\<close>

lemma map_of_to_object:
  "map_of (to_object m) k = (if k = ''__proto__'' then None else map_of m k)"
  by (induction m) (auto simp: to_object_def)

lemma to_object_id: "''__proto__'' \<notin> fst ` set m \<Longrightarrow> to_object m = m"
  by (induction m) (auto simp: to_object_def)

lemma map_of_toJSON:
  "map_of (toJSON deep m) k =
     (if k = ''__proto__'' then None
      else map_option (\<lambda>v. if deep then plain v else v) (map_of m k))"
  by (induction m) (auto simp: toJSON_def to_object_def)

lemma live_keys: "fst ` set (live n) \<subseteq> fst ` set n"
  by (induction n) (auto simp: live_def)

lemma live_Cons:
  "live ((k, None) # n) = live n"
  "live ((k, Some v) # n) = (k, v) # live n"
  by (simp_all add: live_def)

lemma map_of_live:
  "distinct (map fst n) \<Longrightarrow>
   map_of (live n) k = (case map_of n k of Some (Some v) \<Rightarrow> Some v | _ \<Rightarrow> None)"
proof (induction n)
  case Nil
  then show ?case by (simp add: live_def)
next
  case (Cons e n)
  obtain k1 v1 where e: "e = (k1, v1)" by (cases e)
  have "k1 \<notin> fst ` set (live n)" using Cons.prems e live_keys [of n] by auto
  then have n1: "map_of (live n) k1 = None" by (simp add: map_of_eq_None_iff)
  have n2: "map_of n k1 = None" using Cons.prems e by (simp add: map_of_eq_None_iff)
  have ih: "map_of (live n) k = (case map_of n k of Some (Some v) \<Rightarrow> Some v | _ \<Rightarrow> None)"
    using Cons by simp
  show ?case
  proof (cases "k = k1")
    case True
    then show ?thesis using n1 by (cases v1) (simp_all add: e live_Cons)
  next
    case False
    then show ?thesis using ih by (cases v1) (simp_all add: e live_Cons)
  qed
qed

lemma live_member:
  "map_of n k = Some (Some x) \<Longrightarrow> (k, x) \<in> set (live n)"
proof -
  assume "map_of n k = Some (Some x)"
  then have "(k, Some x) \<in> set n" by (rule map_of_SomeD)
  then show ?thesis by (force simp: live_def)
qed

lemma delete_unless_keys [simp]: "map fst (delete_unless keep n) = map fst n"
  by (induction n) (auto simp: delete_unless_def)

lemma map_of_delete_unless:
  "map_of (delete_unless keep n) k = map_option (\<lambda>v. if keep k then v else None) (map_of n k)"
  by (induction n) (auto simp: delete_unless_def)

lemma set_if_absent_distinct:
  "distinct (map fst n) \<Longrightarrow> distinct (map fst (set_if_absent e n))"
  by (simp add: set_if_absent_def distinct_update split: option.splits)

lemma fold_set_if_absent_distinct:
  "distinct (map fst n) \<Longrightarrow> distinct (map fst (fold set_if_absent es n))"
  by (induction es arbitrary: n) (simp_all add: set_if_absent_distinct)

lemma map_of_set_if_absent:
  "map_of (set_if_absent e n) k =
     (if k = fst e then (case map_of n k of Some (Some x) \<Rightarrow> Some (Some x) | _ \<Rightarrow> Some (Some (snd e)))
      else map_of n k)"
  by (auto simp: set_if_absent_def update_conv' split: option.splits)

lemma map_of_live_set_if_absent:
  "distinct (map fst n) \<Longrightarrow> map_of (live (set_if_absent e n)) = [fst e \<mapsto> snd e] ++ map_of (live n)"
  by (rule ext)
     (auto simp: map_of_live set_if_absent_distinct map_of_set_if_absent map_add_def
        split: option.splits)

lemma map_of_live_fold:
  "distinct (map fst n) \<Longrightarrow>
   map_of (live (fold set_if_absent es n)) = map_of es ++ map_of (live n)"
proof (induction es arbitrary: n)
  case Nil
  then show ?case by simp
next
  case (Cons e es)
  have d: "distinct (map fst (set_if_absent e n))"
    using Cons.prems by (rule set_if_absent_distinct)
  show ?case
    by (rule ext)
       (auto simp: Cons.IH [OF d] map_of_live_set_if_absent [OF Cons.prems] map_add_def
          split: option.splits)
qed

lemma fold_set_if_absent_fresh:
  "distinct (map fst n @ map fst es) \<Longrightarrow>
   fold set_if_absent es n = n @ map (\<lambda>(k, v). (k, Some v)) es"
proof (induction es arbitrary: n)
  case Nil
  then show ?case by simp
next
  case (Cons e es)
  obtain k v where e: "e = (k, v)" by (cases e)
  have kn: "k \<notin> fst ` set n" using Cons.prems e by auto
  then have "map_of n k = None" by (simp add: map_of_eq_None_iff)
  moreover have "AList.update k (Some v) n = n @ [(k, Some v)]"
    using kn by (induction n) auto
  ultimately have s: "set_if_absent (k, v) n = n @ [(k, Some v)]"
    by (simp add: set_if_absent_def)
  have "distinct (map fst (n @ [(k, Some v)]) @ map fst es)"
    using Cons.prems e by auto
  from Cons.IH [OF this] show ?case by (simp add: s e)
qed

lemma live_Some: "live (map (\<lambda>(k, v). (k, Some v)) cm) = cm"
  by (induction cm) (auto simp: live_def)

lemma update_absent: "k \<notin> fst ` set m \<Longrightarrow> AList.update k v m = m @ [(k, v)]"
  by (induction m) auto

lemma update_twice: "AList.update k v (AList.update k w m) = AList.update k v m"
  by (induction m) auto

lemma truthy_property_cong:
  "map_of a = map_of b \<Longrightarrow> truthy_property a = truthy_property b"
  by (rule ext) (simp add: truthy_property_def js_get_def)

lemma getThought_empty: "root d = [] \<Longrightarrow> getThought deep d = Inr None"
  by (simp add: getThought_def)

lemma sets_prototype_key: "sets_prototype es \<Longrightarrow> map_of es ''__proto__'' \<noteq> None"
  by (induction es) (auto simp: sets_prototype_def)

lemma getThought_nested:
  assumes "map_of (root d) ''childrenMap'' = Some (YMap n)"
    and "deep \<longrightarrow> \<not> sets_prototype (live n) \<and> \<not> truthy_property (to_object (live n)) ''toJSON''"
  shows "getThought deep d =
     Inr (Some (AList.update ''childrenMap'' (JObj (to_object (live n))) (toJSON deep (root d))))"
proof -
  have ne: "root d \<noteq> []" using assms(1) by auto
  have "map_of (toJSON deep (root d)) ''childrenMap'' =
      Some (if deep then JObj (to_object (live n)) else YMap n)"
    by (simp add: map_of_toJSON assms(1))
  then show ?thesis
    using ne assms
    by (cases deep) (simp_all add: getThought_def Let_def prototype_replaced_def)
qed

lemma getThought_plain:
  assumes "map_of (root d) ''childrenMap'' = Some (JObj m)"
    and "\<not> truthy_property m ''toJSON''"
  shows "getThought deep d =
     Inr (Some (AList.update ''childrenMap'' (JObj m) (toJSON deep (root d))))"
proof -
  have ne: "root d \<noteq> []" using assms(1) by auto
  have "map_of (toJSON deep (root d)) ''childrenMap'' = Some (JObj m)"
    by (simp add: map_of_toJSON assms(1))
  then show ?thesis
    using ne assms by (simp add: getThought_def Let_def prototype_replaced_def)
qed

lemma thought_entry_other:
  "k \<noteq> ''childrenMap'' \<Longrightarrow> thought_entry thought (k, v) m = (AList.update k v m, None)"
  by (simp add: thought_entry_def)

lemma thought_entry_children:
  assumes t: "map_of thought ''childrenMap'' = Some (JObj cm)"
    and slot: "map_of m ''childrenMap'' = None \<or>
      (\<exists>n. map_of m ''childrenMap'' = Some (YMap n) \<and> distinct (map fst n) \<and>
           (\<forall>(k, x) \<in> set (live n). truthy_property cm k \<longrightarrow> map_of cm k = Some x))"
  shows "\<exists>n2. thought_entry thought (''childrenMap'', JObj cm) m =
            (AList.update ''childrenMap'' (YMap n2) m, None)
          \<and> distinct (map fst n2)
          \<and> map_of (live n2) = map_of cm
          \<and> (map_of m ''childrenMap'' = None \<and> distinct (map fst cm) \<longrightarrow>
               n2 = map (\<lambda>(k, v). (k, Some v)) cm)"
proof (cases "map_of m ''childrenMap''")
  case None
  have e: "thought_entry thought (''childrenMap'', JObj cm) m =
      (AList.update ''childrenMap'' (YMap (fold set_if_absent cm [])) m, None)"
    by (simp add: thought_entry_def nested_slot_def None delete_stale_children_def entries_of_def t
          live_def update_twice)
  have "map_of (live (fold set_if_absent cm [])) = map_of cm"
    using map_of_live_fold [of "[]" cm] by (simp add: live_def)
  moreover have "distinct (map fst cm) \<longrightarrow> fold set_if_absent cm [] = map (\<lambda>(k, v). (k, Some v)) cm"
    using fold_set_if_absent_fresh [of "[]" cm] by simp
  moreover have "distinct (map fst (fold set_if_absent cm []))"
    by (rule fold_set_if_absent_distinct) simp
  ultimately show ?thesis using e by blast
next
  case (Some s)
  with slot obtain n where n: "map_of m ''childrenMap'' = Some (YMap n)"
    and dn: "distinct (map fst n)"
    and ok: "\<forall>(k, x) \<in> set (live n). truthy_property cm k \<longrightarrow> map_of cm k = Some x"
    by auto
  let ?n1 = "delete_unless (truthy_property cm) n"
  have d1: "distinct (map fst ?n1)" using dn by simp
  have l1: "map_of (live ?n1) k = (if truthy_property cm k then map_of (live n) k else None)" for k
    by (simp add: map_of_live [OF d1] map_of_live [OF dn] map_of_delete_unless
          split: option.splits)
  have ds: "delete_stale_children (JObj cm) n = Inr ?n1 \<or>
            (delete_stale_children (JObj cm) n = Inr n \<and> live n = [])"
    by (simp add: delete_stale_children_def)
  have same: "live n = [] \<Longrightarrow> map_of (live ?n1) = map_of (live n)"
    by (rule ext) (simp add: l1)
  define n1 where "n1 = (if live n = [] then n else ?n1)"
  have ds1: "delete_stale_children (JObj cm) n = Inr n1"
    by (simp add: delete_stale_children_def n1_def)
  have dn1: "distinct (map fst n1)" using dn by (simp add: n1_def)
  have ln1: "map_of (live n1) k = (if truthy_property cm k then map_of (live n) k else None)" for k
    by (simp add: n1_def l1)
  have e: "thought_entry thought (''childrenMap'', JObj cm) m =
      (AList.update ''childrenMap'' (YMap (fold set_if_absent cm n1)) m, None)"
    by (simp add: thought_entry_def nested_slot_def n ds1 entries_of_def t)
  have "map_of (live (fold set_if_absent cm n1)) k = map_of cm k" for k
  proof (cases "truthy_property cm k \<and> map_of (live n) k \<noteq> None")
    case True
    then obtain x where x: "map_of (live n) k = Some x" by auto
    then have "(k, x) \<in> set (live n)" by (rule map_of_SomeD)
    with ok True have "map_of cm k = Some x" by auto
    then show ?thesis
      using x True by (simp add: map_of_live_fold [OF dn1] map_add_def ln1)
  next
    case False
    then show ?thesis
      by (auto simp: map_of_live_fold [OF dn1] map_add_def ln1 split: option.splits)
  qed
  then have "map_of (live (fold set_if_absent cm n1)) = map_of cm" by (rule ext)
  moreover have "distinct (map fst (fold set_if_absent cm n1))"
    using dn1 by (rule fold_set_if_absent_distinct)
  ultimately show ?thesis using e n by auto
qed

lemma run_entries_keeps_children:
  "''childrenMap'' \<notin> fst ` set es \<Longrightarrow>
   map_of (fst (run_entries (thought_entry thought) es m1)) ''childrenMap'' = map_of m1 ''childrenMap''"
proof (induction es arbitrary: m1)
  case Nil
  then show ?case by simp
next
  case (Cons a as)
  obtain k1 v1 where a: "a = (k1, v1)" by (cases a)
  have k1: "k1 \<noteq> ''childrenMap''" using Cons.prems a by auto
  have "''childrenMap'' \<notin> fst ` set as" using Cons.prems by auto
  from Cons.IH [OF this, of "AList.update k1 v1 m1"] show ?case
    using k1 by (simp add: a thought_entry_other update_conv')
qed

lemma run_entries_thought:
  assumes t: "map_of thought ''childrenMap'' = Some (JObj cm)"
  shows "distinct (map fst es) \<Longrightarrow>
     (\<forall>v. (''childrenMap'', v) \<in> set es \<longrightarrow> v = JObj cm) \<Longrightarrow>
     (''childrenMap'' \<in> fst ` set es \<longrightarrow>
        (map_of m ''childrenMap'' = None \<or>
         (\<exists>n. map_of m ''childrenMap'' = Some (YMap n) \<and> distinct (map fst n) \<and>
              (\<forall>(k, x) \<in> set (live n). truthy_property cm k \<longrightarrow> map_of cm k = Some x)))) \<Longrightarrow>
     \<exists>m'. run_entries (thought_entry thought) es m = (m', None)
        \<and> (\<forall>k. k \<noteq> ''childrenMap'' \<longrightarrow>
              map_of m' k = (case map_of es k of Some v \<Rightarrow> Some v | None \<Rightarrow> map_of m k))
        \<and> (''childrenMap'' \<in> fst ` set es \<longrightarrow>
              (\<exists>n2. map_of m' ''childrenMap'' = Some (YMap n2) \<and> map_of (live n2) = map_of cm))"
proof (induction es arbitrary: m)
  case Nil
  then show ?case by simp
next
  case (Cons e es)
  obtain k v where e: "e = (k, v)" by (cases e)
  have dist: "distinct (map fst es)" and knot: "k \<notin> fst ` set es"
    using Cons.prems(1) e by auto
  have vals: "\<forall>v. (''childrenMap'', v) \<in> set es \<longrightarrow> v = JObj cm"
    using Cons.prems(2) by auto
  show ?case
  proof (cases "k = ''childrenMap''")
    case True
    then have v: "v = JObj cm" using Cons.prems(2) e by auto
    have slot: "map_of m ''childrenMap'' = None \<or>
         (\<exists>n. map_of m ''childrenMap'' = Some (YMap n) \<and> distinct (map fst n) \<and>
              (\<forall>(k, x) \<in> set (live n). truthy_property cm k \<longrightarrow> map_of cm k = Some x))"
      using Cons.prems(3) e True by simp
    from thought_entry_children [OF t slot] obtain n2 where
      te: "thought_entry thought (''childrenMap'', JObj cm) m =
             (AList.update ''childrenMap'' (YMap n2) m, None)"
      and n2: "map_of (live n2) = map_of cm" by blast
    let ?m1 = "AList.update ''childrenMap'' (YMap n2) m"
    have no: "''childrenMap'' \<notin> fst ` set es" using knot True by simp
    from Cons.IH [OF dist vals, of ?m1] no obtain m' where
      r: "run_entries (thought_entry thought) es ?m1 = (m', None)"
      and others: "\<forall>k. k \<noteq> ''childrenMap'' \<longrightarrow>
              map_of m' k = (case map_of es k of Some v \<Rightarrow> Some v | None \<Rightarrow> map_of ?m1 k)"
      by blast
    have keep: "map_of m' ''childrenMap'' = Some (YMap n2)"
      using run_entries_keeps_children [OF no, of thought ?m1] r by (simp add: update_conv')
    show ?thesis
      using r others keep n2 te
      by (auto simp: e True v update_conv' split: option.splits)
  next
    case False
    let ?m1 = "AList.update k v m"
    have slot: "''childrenMap'' \<in> fst ` set es \<longrightarrow>
        (map_of ?m1 ''childrenMap'' = None \<or>
         (\<exists>n. map_of ?m1 ''childrenMap'' = Some (YMap n) \<and> distinct (map fst n) \<and>
              (\<forall>(k, x) \<in> set (live n). truthy_property cm k \<longrightarrow> map_of cm k = Some x)))"
      using Cons.prems(3) False by (auto simp: update_conv')
    from Cons.IH [OF dist vals slot] obtain m' where
      r: "run_entries (thought_entry thought) es ?m1 = (m', None)"
      and others: "\<forall>k. k \<noteq> ''childrenMap'' \<longrightarrow>
              map_of m' k = (case map_of es k of Some v \<Rightarrow> Some v | None \<Rightarrow> map_of ?m1 k)"
      and cmap: "''childrenMap'' \<in> fst ` set es \<longrightarrow>
              (\<exists>n2. map_of m' ''childrenMap'' = Some (YMap n2) \<and> map_of (live n2) = map_of cm)"
      by blast
    have kn: "map_of es k = None" using knot by (simp add: map_of_eq_None_iff)
    show ?thesis
      using r others cmap False kn
      by (auto simp: e thought_entry_other update_conv' split: option.splits)
  qed
qed

lemma run_entries_fresh:
  assumes t: "map_of thought ''childrenMap'' = Some (JObj cm)" and dcm: "distinct (map fst cm)"
  shows "distinct (map fst (m @ es)) \<Longrightarrow>
     (\<forall>v. (''childrenMap'', v) \<in> set es \<longrightarrow> v = JObj cm) \<Longrightarrow>
     run_entries (thought_entry thought) es m =
       (m @ map (\<lambda>(k, v). (k, if k = ''childrenMap'' then YMap (map (\<lambda>(k, v). (k, Some v)) cm) else v)) es,
        None)"
proof (induction es arbitrary: m)
  case Nil
  then show ?case by simp
next
  case (Cons e es)
  obtain k v where e: "e = (k, v)" by (cases e)
  have km: "k \<notin> fst ` set m" using Cons.prems(1) e by auto
  have vals: "\<forall>v. (''childrenMap'', v) \<in> set es \<longrightarrow> v = JObj cm"
    using Cons.prems(2) by auto
  have step: "thought_entry thought (k, v) m =
      (m @ [(k, if k = ''childrenMap'' then YMap (map (\<lambda>(k, v). (k, Some v)) cm) else v)], None)"
  proof (cases "k = ''childrenMap''")
    case True
    then have v: "v = JObj cm" using Cons.prems(2) e by auto
    have none: "map_of m ''childrenMap'' = None"
      using km True by (simp add: map_of_eq_None_iff)
    from thought_entry_children [OF t, of m] none dcm
    have "thought_entry thought (''childrenMap'', JObj cm) m =
        (AList.update ''childrenMap'' (YMap (map (\<lambda>(k, v). (k, Some v)) cm)) m, None)" by auto
    then show ?thesis using True v km by (simp add: update_absent)
  next
    case False
    then show ?thesis using km by (simp add: thought_entry_other update_absent)
  qed
  have "distinct (map fst ((m @ [(k, if k = ''childrenMap'' then YMap (map (\<lambda>(k, v). (k, Some v)) cm) else v)]) @ es))"
    using Cons.prems(1) e by auto
  from Cons.IH [OF this vals] step show ?case by (simp add: e)
qed

lemma restore_children:
  "distinct (map fst db) \<Longrightarrow> map_of db ''childrenMap'' = Some (JObj cm) \<Longrightarrow>
   \<forall>v \<in> snd ` set db. plain v = v \<Longrightarrow>
   to_object (live (map (\<lambda>(k, v). (k, Some v)) cm)) = cm \<Longrightarrow>
   AList.update ''childrenMap'' (JObj cm)
     (map (\<lambda>(k, v). (k, if deep then plain v else v))
        (map (\<lambda>(k, v). (k, if k = ''childrenMap'' then YMap (map (\<lambda>(k, v). (k, Some v)) cm) else v)) db)) = db"
proof (induction db)
  case Nil
  then show ?case by simp
next
  case (Cons e db)
  obtain k v where e: "e = (k, v)" by (cases e)
  show ?case
  proof (cases "k = ''childrenMap''")
    case True
    then have v: "v = JObj cm" using Cons.prems(2) e by simp
    have "''childrenMap'' \<notin> fst ` set db" using Cons.prems(1) e True by auto
    then have same: "map (\<lambda>(k, v). (k, if k = ''childrenMap'' then YMap (map (\<lambda>(k, v). (k, Some v)) cm) else v)) db = db"
      by (induction db) auto
    have "map (\<lambda>(k, v). (k, if deep then plain v else v)) db = db"
      using Cons.prems(3) by (induction db) auto
    then show ?thesis using True v same by (simp add: e)
  next
    case False
    have "map_of db ''childrenMap'' = Some (JObj cm)" using Cons.prems(2) e False by simp
    moreover have "distinct (map fst db)" "\<forall>v \<in> snd ` set db. plain v = v"
      using Cons.prems by auto
    ultimately have "AList.update ''childrenMap'' (JObj cm)
     (map (\<lambda>(k, v). (k, if deep then plain v else v))
        (map (\<lambda>(k, v). (k, if k = ''childrenMap'' then YMap (map (\<lambda>(k, v). (k, Some v)) cm) else v)) db)) = db"
      using Cons.IH Cons.prems(4) by simp
    moreover have "plain v = v" using Cons.prems(3) e by simp
    ultimately show ?thesis using False by (simp add: e split: if_splits)
  qed
qed

lemma toJSON_map:
  "''__proto__'' \<notin> fst ` set m \<Longrightarrow> toJSON deep m = map (\<lambda>(k, v). (k, if deep then plain v else v)) m"
proof -
  assume a: "''__proto__'' \<notin> fst ` set m"
  have "''__proto__'' \<notin> fst ` set (map (\<lambda>(k, v). (k, if deep then plain v else v)) m)"
    using a by (induction m) auto
  from to_object_id [OF this] show ?thesis
    by (cases deep) (simp_all add: toJSON_def case_prod_beta)
qed

text \<open>
  C7, as the code has it. Let \<open>db\<close> be the db projection of the thought \<open>t\<close>, an object
  of plain values with each key once and no key \<^verbatim>\<open>__proto__\<close>, that keeps the
  \<^verbatim>\<open>childrenMap\<close> of \<open>t\<close>, which has no key \<^verbatim>\<open>__proto__\<close> and no truthy property
  \<^verbatim>\<open>toJSON\<close>. Writing \<open>t\<close> into a document and reading it back gives \<open>db\<close> field by
  field, with \<^verbatim>\<open>childrenMap\<close> equal as a mapping, provided the document stores no field
  that \<open>db\<close> lacks and every child that its nested \<^verbatim>\<open>childrenMap\<close>, if it has one, holds
  under a key \<open>k\<close> for which \<^verbatim>\<open>childrenMap[k]\<close> of \<open>t\<close> reads truthy is the child of
  \<open>t\<close> under that key; on a document with an empty root map the result is \<open>db\<close> itself
  (the children of \<open>t\<close> being keyed once each). A document with an empty root map reads
  as none. A non-empty document whose \<^verbatim>\<open>childrenMap\<close> is stored as a nested map or as
  a plain object reads with \<^verbatim>\<open>childrenMap\<close> as a plain object, when that object has no
  truthy property \<^verbatim>\<open>toJSON\<close> of its own and the nested map holds no object under
  \<^verbatim>\<open>__proto__\<close>.
\<close>

theorem thought_roundtrip:
  "(db = thoughtToDb c t \<and> distinct (map fst db) \<and> ''__proto__'' \<notin> fst ` set db
     \<and> map_of db ''childrenMap'' = Some (JObj cm) \<and> map_of t ''childrenMap'' = Some (JObj cm)
     \<and> ''__proto__'' \<notin> fst ` set cm \<and> \<not> truthy_property cm ''toJSON''
     \<and> (\<forall>v \<in> snd ` set db. plain v = v)
     \<and> fst ` set (root d) \<subseteq> fst ` set db
     \<and> (map_of (root d) ''childrenMap'' = None \<or>
         (\<exists>n. map_of (root d) ''childrenMap'' = Some (YMap n) \<and> distinct (map fst n) \<and>
              (\<forall>(k, x) \<in> set (live n). truthy_property cm k \<longrightarrow> map_of cm k = Some x)))
    \<longrightarrow> snd (thought_transact db t d) = None
      \<and> (\<exists>obj cm2. getThought deep (fst (thought_transact db t d)) = Inr (Some obj)
            \<and> (\<forall>k. k \<noteq> ''childrenMap'' \<longrightarrow> map_of obj k = map_of db k)
            \<and> map_of obj ''childrenMap'' = Some (JObj cm2) \<and> map_of cm2 = map_of cm
            \<and> (root d = [] \<and> distinct (map fst cm) \<longrightarrow> obj = db)))
   \<and> (root e = [] \<longrightarrow> getThought deep e = Inr None)
   \<and> (map_of (root e) ''childrenMap'' = Some (YMap n') \<and> \<not> sets_prototype (live n')
        \<and> \<not> truthy_property (to_object (live n')) ''toJSON''
        \<longrightarrow> (\<exists>obj. getThought deep e = Inr (Some obj)
               \<and> map_of obj ''childrenMap'' = Some (JObj (to_object (live n')))))
   \<and> (map_of (root e) ''childrenMap'' = Some (JObj m) \<and> \<not> truthy_property m ''toJSON''
        \<longrightarrow> (\<exists>obj. getThought deep e = Inr (Some obj) \<and> map_of obj ''childrenMap'' = Some (JObj m)))"
proof (intro conjI impI)
  assume h: "db = thoughtToDb c t \<and> distinct (map fst db) \<and> ''__proto__'' \<notin> fst ` set db
     \<and> map_of db ''childrenMap'' = Some (JObj cm) \<and> map_of t ''childrenMap'' = Some (JObj cm)
     \<and> ''__proto__'' \<notin> fst ` set cm \<and> \<not> truthy_property cm ''toJSON''
     \<and> (\<forall>v \<in> snd ` set db. plain v = v)
     \<and> fst ` set (root d) \<subseteq> fst ` set db
     \<and> (map_of (root d) ''childrenMap'' = None \<or>
         (\<exists>n. map_of (root d) ''childrenMap'' = Some (YMap n) \<and> distinct (map fst n) \<and>
              (\<forall>(k, x) \<in> set (live n). truthy_property cm k \<longrightarrow> map_of cm k = Some x)))"
  then have dist: "distinct (map fst db)"
    and dbp: "''__proto__'' \<notin> fst ` set db"
    and dbc: "map_of db ''childrenMap'' = Some (JObj cm)"
    and tc: "map_of t ''childrenMap'' = Some (JObj cm)"
    and cmp: "''__proto__'' \<notin> fst ` set cm"
    and cmt: "\<not> truthy_property cm ''toJSON''"
    and pl: "\<forall>v \<in> snd ` set db. plain v = v"
    and sub: "fst ` set (root d) \<subseteq> fst ` set db"
    and slot: "map_of (root d) ''childrenMap'' = None \<or>
         (\<exists>n. map_of (root d) ''childrenMap'' = Some (YMap n) \<and> distinct (map fst n) \<and>
              (\<forall>(k, x) \<in> set (live n). truthy_property cm k \<longrightarrow> map_of cm k = Some x))"
    by blast+
  have vals: "\<forall>v. (''childrenMap'', v) \<in> set db \<longrightarrow> v = JObj cm"
    using map_of_is_SomeI [OF dist] dbc by fastforce
  have inn: "''childrenMap'' \<in> fst ` set db"
    using dbc by (metis map_of_eq_None_iff option.distinct(1))
  from run_entries_thought [OF tc dist vals, of "root d"] slot inn obtain m' n2 where
    r: "run_entries (thought_entry t) db (root d) = (m', None)"
    and others: "\<forall>k. k \<noteq> ''childrenMap'' \<longrightarrow>
        map_of m' k = (case map_of db k of Some v \<Rightarrow> Some v | None \<Rightarrow> map_of (root d) k)"
    and ch: "map_of m' ''childrenMap'' = Some (YMap n2)" and n2: "map_of (live n2) = map_of cm"
    by blast
  have doc: "thought_transact db t d = (d\<lparr>root := m'\<rparr>, None)"
    by (simp add: thought_transact_def r)
  show "snd (thought_transact db t d) = None" by (simp add: doc)
  let ?cm2 = "to_object (live n2)"
  have cm2: "map_of ?cm2 = map_of cm"
  proof (rule ext)
    fix k
    have "map_of cm ''__proto__'' = None" using cmp by (simp add: map_of_eq_None_iff)
    then show "map_of ?cm2 k = map_of cm k" by (simp add: map_of_to_object n2)
  qed
  have nt: "\<not> truthy_property ?cm2 ''toJSON''"
    using cmt truthy_property_cong [OF cm2] by simp
  have "map_of (live n2) ''__proto__'' = None"
    using cmp by (simp add: n2 map_of_eq_None_iff)
  then have np: "\<not> sets_prototype (live n2)"
    using sets_prototype_key [of "live n2"] by auto
  let ?obj = "AList.update ''childrenMap'' (JObj ?cm2) (toJSON deep m')"
  have g: "getThought deep (fst (thought_transact db t d)) = Inr (Some ?obj)"
    using getThought_nested [of "d\<lparr>root := m'\<rparr>" n2 deep] ch nt np by (simp add: doc)
  have o: "map_of ?obj k = map_of db k" if "k \<noteq> ''childrenMap''" for k
  proof (cases "map_of db k")
    case None
    then have "k \<notin> fst ` set (root d)" using sub by (auto simp: map_of_eq_None_iff)
    then have "map_of (root d) k = None" by (simp add: map_of_eq_None_iff)
    then show ?thesis using others that None by (simp add: update_conv' map_of_toJSON)
  next
    case (Some v)
    then have kv: "(k, v) \<in> set db" by (rule map_of_SomeD)
    then have "plain v = v" using pl by force
    moreover have "k \<noteq> ''__proto__''" using kv dbp by force
    ultimately show ?thesis using others that Some by (simp add: update_conv' map_of_toJSON)
  qed
  have f: "?obj = db" if "root d = []" "distinct (map fst cm)"
  proof -
    let ?m = "map (\<lambda>(k, v). (k, if k = ''childrenMap'' then YMap (map (\<lambda>(k, v). (k, Some v)) cm) else v)) db"
    have "run_entries (thought_entry t) db [] = ([] @ ?m, None)"
      using run_entries_fresh [OF tc that(2), of "[]" db] dist vals by simp
    then have m': "m' = ?m" using r that(1) by simp
    have "map_of m' ''childrenMap'' = Some (YMap (map (\<lambda>(k, v). (k, Some v)) cm))"
      unfolding m' using dbc by (induction db) (auto split: if_splits)
    then have n2e: "n2 = map (\<lambda>(k, v). (k, Some v)) cm" using ch by simp
    have c: "?cm2 = cm" by (simp add: n2e live_Some to_object_id [OF cmp])
    have "''__proto__'' \<notin> fst ` set ?m" using dbp by (induction db) auto
    then have tj: "toJSON deep m' = map (\<lambda>(k, v). (k, if deep then plain v else v)) ?m"
      unfolding m' by (rule toJSON_map)
    have "to_object (live (map (\<lambda>(k, v). (k, Some v)) cm)) = cm"
      by (simp add: live_Some to_object_id [OF cmp])
    from restore_children [OF dist dbc pl this, of deep] show ?thesis
      by (simp add: c tj)
  qed
  show "\<exists>obj cm2. getThought deep (fst (thought_transact db t d)) = Inr (Some obj)
            \<and> (\<forall>k. k \<noteq> ''childrenMap'' \<longrightarrow> map_of obj k = map_of db k)
            \<and> map_of obj ''childrenMap'' = Some (JObj cm2) \<and> map_of cm2 = map_of cm
            \<and> (root d = [] \<and> distinct (map fst cm) \<longrightarrow> obj = db)"
    using g o f cm2 by (intro exI [of _ ?obj] exI [of _ ?cm2]) (simp add: update_conv')
next
  assume "root e = []"
  then show "getThought deep e = Inr None" by (rule getThought_empty)
next
  assume "map_of (root e) ''childrenMap'' = Some (YMap n') \<and> \<not> sets_prototype (live n')
        \<and> \<not> truthy_property (to_object (live n')) ''toJSON''"
  then show "\<exists>obj. getThought deep e = Inr (Some obj)
      \<and> map_of obj ''childrenMap'' = Some (JObj (to_object (live n')))"
    using getThought_nested [of e n' deep] by (auto simp: update_conv')
next
  assume "map_of (root e) ''childrenMap'' = Some (JObj m) \<and> \<not> truthy_property m ''toJSON''"
  then show "\<exists>obj. getThought deep e = Inr (Some obj) \<and> map_of obj ''childrenMap'' = Some (JObj m)"
    using getThought_plain [of e m deep] by (auto simp: update_conv')
qed

lemmas codec_defs = thought_transact_def thought_entry_def nested_slot_def
  delete_stale_children_def delete_unless_def entries_of_def set_if_absent_def getThought_def
  toJSON_def to_object_def live_def truthy_property_def js_get_def Object_prototype_def
  prototype_replaced_def sets_prototype_def
  new_doc_def demo_config_def Let_def

theorem thought_roundtrip_witness:
  "getThought True (fst (thought_transact
      (thoughtToDb demo_config
         [(''id'', JStr ''x''), (''value'', JStr ''a''), (''childrenMap'', JObj [(''=pin'', JStr ''c1'')])])
      [(''id'', JStr ''x''), (''value'', JStr ''a''), (''childrenMap'', JObj [(''=pin'', JStr ''c1'')])]
      (new_doc ''ws/thought/x''))) =
     Inr (Some [(''id'', JStr ''x''), (''value'', JStr ''a''), (''childrenMap'', JObj [(''=pin'', JStr ''c1'')])])
   \<and> getThought True (new_doc ''ws/thought/x'') = Inr None
   \<and> (\<exists>obj. getThought False
          \<lparr>guid = ''ws/thought/x'',
           root = [(''childrenMap'', YMap [(''=pin'', Some (JStr ''c1'')), (''old'', None)])],
           observed = True\<rparr>
            = Inr (Some obj)
        \<and> map_of obj ''childrenMap'' = Some (JObj [(''=pin'', JStr ''c1'')]))
   \<and> (\<exists>obj. getThought True
          \<lparr>guid = ''ws/thought/x'', root = [(''childrenMap'', JObj [(''=pin'', JStr ''c1'')])], observed = True\<rparr>
            = Inr (Some obj)
        \<and> map_of obj ''childrenMap'' = Some (JObj [(''=pin'', JStr ''c1'')]))"
proof -
  let ?t = "[(''id'', JStr ''x''), (''value'', JStr ''a''), (''childrenMap'', JObj [(''=pin'', JStr ''c1'')])]"
  let ?n = "[(''=pin'', Some (JStr ''c1'')), (''old'', None)]"
  let ?e = "\<lparr>guid = ''ws/thought/x'', root = [(''childrenMap'', YMap ?n)], observed = True\<rparr>"
  let ?f = "\<lparr>guid = ''ws/thought/x'', root = [(''childrenMap'', JObj [(''=pin'', JStr ''c1'')])], observed = True\<rparr>"
  have tp: "\<not> truthy_property [(''=pin'', JStr ''c1'')] ''toJSON''"
    by (simp add: truthy_property_def js_get_def Object_prototype_def)
  have lv: "to_object (live ?n) = [(''=pin'', JStr ''c1'')]" "\<not> sets_prototype (live ?n)"
    by (simp_all add: to_object_def live_def sets_prototype_def)
  have a: "getThought True (fst (thought_transact (thoughtToDb demo_config ?t) ?t (new_doc ''ws/thought/x'')))
      = Inr (Some ?t) \<and> getThought True (new_doc ''ws/thought/x'') = Inr None"
    using thought_roundtrip [of ?t demo_config ?t "[(''=pin'', JStr ''c1'')]" "new_doc ''ws/thought/x''"
        True "new_doc ''ws/thought/x''"] tp
    by (auto simp: demo_config_def new_doc_def)
  have b: "\<exists>obj. getThought False ?e = Inr (Some obj)
        \<and> map_of obj ''childrenMap'' = Some (JObj [(''=pin'', JStr ''c1'')])"
    using thought_roundtrip [of ?t demo_config ?t "[(''=pin'', JStr ''c1'')]" "new_doc ''ws/thought/x''"
        False ?e ?n] tp lv
    by simp
  have c: "\<exists>obj. getThought True ?f = Inr (Some obj)
        \<and> map_of obj ''childrenMap'' = Some (JObj [(''=pin'', JStr ''c1'')])"
    using thought_roundtrip [of ?t demo_config ?t "[(''=pin'', JStr ''c1'')]" "new_doc ''ws/thought/x''"
        True ?f "[]" "[(''=pin'', JStr ''c1'')]"] tp
    by simp
  from a b c show ?thesis by simp
qed

text \<open>
  The claim as stated fails on a document that already holds the thought: the child
  stored under a key stays when the thought written has another child under that key.
\<close>

theorem thought_roundtrip_keeps_old_child:
  "getThought True (fst (thought_transact
      (thoughtToDb demo_config
         [(''id'', JStr ''x''), (''value'', JStr ''b''), (''childrenMap'', JObj [(''=pin'', JStr ''c2'')])])
      [(''id'', JStr ''x''), (''value'', JStr ''b''), (''childrenMap'', JObj [(''=pin'', JStr ''c2'')])]
      (fst (thought_transact
         (thoughtToDb demo_config
            [(''id'', JStr ''x''), (''value'', JStr ''a''), (''childrenMap'', JObj [(''=pin'', JStr ''c1'')])])
         [(''id'', JStr ''x''), (''value'', JStr ''a''), (''childrenMap'', JObj [(''=pin'', JStr ''c1'')])]
         (new_doc ''ws/thought/x''))))) =
     Inr (Some [(''id'', JStr ''x''), (''value'', JStr ''b''), (''childrenMap'', JObj [(''=pin'', JStr ''c1'')])])
   \<and> thoughtToDb demo_config
         [(''id'', JStr ''x''), (''value'', JStr ''b''), (''childrenMap'', JObj [(''=pin'', JStr ''c2'')])] =
       [(''id'', JStr ''x''), (''value'', JStr ''b''), (''childrenMap'', JObj [(''=pin'', JStr ''c2'')])]"
  by (simp add: codec_defs)

section \<open>clear\<close>






























end
